theory Spec2Isabelle
  imports Complex_Main "HOL-Library.AList"
begin

section \<open>Data model of \<open>src/base/group.js\<close>\<close>

text \<open>
  A point object is identified with its id: a reference to a point (an entry of
  \<open>this.objects\<close>, an element of a role array, a centre) is the id of that point, and
  the heap \<open>points\<close> gives the object behind every id. \<open>boardObjects\<close> is the set of
  ids registered in \<open>board.objects\<close>; an object can leave the board and still be
  referenced by a group.

  JavaScript numbers are idealised as reals. \<open>usrCoords\<close> is the homogeneous triple
  \<open>[z, x, y]\<close>.
\<close>

type_synonym ident = string
type_synonym vec2 = "real \<times> real"
type_synonym usr = "real \<times> real \<times> real"
type_synonym mat3 = "usr \<times> usr \<times> usr"

record point =
  usrCoords :: usr
  groups :: "ident list"

record board =
  points :: "ident \<Rightarrow> point"
  boardObjects :: "ident set"

text \<open>
  The polymorphic value of \<open>rotationCenter\<close> and \<open>scaleCenter\<close>: a point, the string
  \<open>'centroid'\<close>, an array, a function (which may read the scene), \<open>null\<close>/\<open>undefined\<close>,
  or any other value (a number, another string, a plain object).
\<close>

datatype center =
    CenterPoint ident
  | CenterCentroid
  | CenterArray vec2
  | CenterFun "board \<Rightarrow> vec2"
  | CenterNull
  | CenterOther

text \<open>
  \<open>objects\<close> is the JavaScript object \<open>this.objects\<close>, whose entry under the key \<open>p.id\<close>
  is \<open>{point: p}\<close> (its only writer is \<open>addPoint\<close>); an entry is represented by its key,
  and the list is in the iteration order of \<open>for (el in this.objects)\<close>: the keys that
  are array indices first, in ascending order, then the other keys in the order of
  their insertion. \<open>coords\<close> is the snapshot \<open>this.coords\<close>, an association list in the
  same way. The role arrays are lists of point references and may hold a reference
  more than once.
\<close>

record group =
  gid :: ident
  objects :: "ident list"
  coords :: "(ident \<times> usr) list"
  needsUpdate :: bool
  rotationCenter :: center
  scaleCenter :: center
  rotationPoints :: "ident list"
  translationPoints :: "ident list"
  scalePoints :: "ident list"
  scaleDirections :: "(ident \<times> string) list"

datatype drag_action = Nothing | Translation | Rotation | Scaling

record drag =
  action :: drag_action
  drag_id :: ident
  changed :: "ident list"

text \<open>
  The value of the local variable \<open>t\<close> of \<open>update\<close>: still undefined, the translation
  vector, or a transformation object with its matrix.
\<close>

datatype transf = TUndefined | TVec vec2 | TMat mat3

datatype error = TypeError

text \<open>
  The collaborators that are not part of \<open>group.js\<close>: the constant \<open>Mat.eps\<close>, the
  oriented angle \<open>Geometry.rad\<close>, the method \<open>applyOnce\<close> of a transformation, which
  is handed the point alone (here: the matrix of the transformation and the point
  object, giving the point object as the method leaves it), and
  \<open>board.updateElements\<close>, which recomputes the dependents and may call back into the
  group.
\<close>

record env =
  Mat_eps :: real
  Geometry_rad :: "vec2 \<Rightarrow> vec2 \<Rightarrow> vec2 \<Rightarrow> real"
  applyOnce :: "mat3 \<Rightarrow> point \<Rightarrow> point"
  updateElements :: "drag \<Rightarrow> group \<times> board \<Rightarrow> group \<times> board"

section \<open>Library functions the group calls\<close>

definition slice1 :: "usr \<Rightarrow> vec2" where
  \<comment> \<open>\<open>usrCoords.slice(1)\<close>\<close>
  "slice1 u = (case u of (z, x, y) \<Rightarrow> (x, y))"

definition usr1 :: "usr \<Rightarrow> real" where
  "usr1 u = fst (slice1 u)"

definition usr2 :: "usr \<Rightarrow> real" where
  "usr2 u = snd (slice1 u)"

definition Coords_distance :: "usr \<Rightarrow> usr \<Rightarrow> real" where
  \<comment> \<open>Modelled from the spec: \<open>Coords.distance(COORDS_BY_USER, c)\<close> is not under src/;
      the spec has it as the Euclidean distance between the live coordinates and the
      snapshot entry.\<close>
  "Coords_distance u c =
     sqrt ((usr1 u - usr1 c) * (usr1 u - usr1 c) + (usr2 u - usr2 c) * (usr2 u - usr2 c))"

definition Geometry_distance :: "vec2 \<Rightarrow> vec2 \<Rightarrow> real" where
  \<comment> \<open>Modelled from the spec: \<open>Geometry.distance\<close> is not under src/; the 2D distance.\<close>
  "Geometry_distance p q =
     sqrt ((fst p - fst q) * (fst p - fst q) + (snd p - snd q) * (snd p - snd q))"

definition matVecMult :: "mat3 \<Rightarrow> usr \<Rightarrow> usr" where
  \<comment> \<open>Modelled from the spec: \<open>Mat.matVecMult\<close> is not under src/; the matrix-vector
      product.\<close>
  "matVecMult m v =
     (case m of (r0, r1, r2) \<Rightarrow>
      case v of (v0, v1, v2) \<Rightarrow>
        (fst r0 * v0 + fst (snd r0) * v1 + snd (snd r0) * v2,
         fst r1 * v0 + fst (snd r1) * v1 + snd (snd r1) * v2,
         fst r2 * v0 + fst (snd r2) * v1 + snd (snd r2) * v2))"

definition setCoordinates :: "usr \<Rightarrow> point \<Rightarrow> point" where
  \<comment> \<open>Modelled from the spec: \<open>Coords.setCoordinates(COORDS_BY_USER, c)\<close> is not under
      src/; the direct coordinate assignment.\<close>
  "setCoordinates c pt = pt\<lparr>usrCoords := c\<rparr>"

definition modify :: "ident \<Rightarrow> (point \<Rightarrow> point) \<Rightarrow> board \<Rightarrow> board" where
  \<comment> \<open>a method that mutates the object behind the reference \<open>p\<close>\<close>
  "modify p f b = b\<lparr>points := (points b)(p := f (points b p))\<rparr>"

definition euclidean :: "vec2 \<Rightarrow> usr" where
  \<comment> \<open>Modelled from the spec: an array of two coordinates given to \<open>setCoordinates\<close>
      stands for the point \<open>[1, x, y]\<close>.\<close>
  "euclidean v = (1, fst v, snd v)"

definition applyOnce_matrix :: "mat3 \<Rightarrow> point \<Rightarrow> point" where
  \<comment> \<open>Modelled from the spec: \<open>Transformation.applyOnce([p])\<close> is not under src/. The
      call hands it the point alone, and by the spec the application steps multiply
      raw coordinate vectors by the matrix: the point's own coordinates are multiplied
      and assigned back.\<close>
  "applyOnce_matrix m pt = setCoordinates (matVecMult m (usrCoords pt)) pt"

definition rotate_matrix :: "real \<Rightarrow> real \<Rightarrow> real \<Rightarrow> mat3" where
  \<comment> \<open>Modelled from the spec: the transformation of type \<open>rotate\<close> is not under src/;
      the rotation by \<open>alpha\<close> about \<open>(x, y)\<close>, on \<open>[z, x, y]\<close>.\<close>
  "rotate_matrix alpha x y =
     ((1, 0, 0),
      (x * (1 - cos alpha) + y * sin alpha, cos alpha, - sin alpha),
      (y * (1 - cos alpha) - x * sin alpha, sin alpha, cos alpha))"

definition generic_matrix ::
  "real \<Rightarrow> real \<Rightarrow> real \<Rightarrow> real \<Rightarrow> real \<Rightarrow> real \<Rightarrow> real \<Rightarrow> real \<Rightarrow> real \<Rightarrow> mat3" where
  \<comment> \<open>Modelled from the spec: the transformation of type \<open>generic\<close> is not under src/;
      its nine parameters are the matrix, row by row (translate by \<open>-c\<close>, scale, translate
      by \<open>+c\<close>).\<close>
  "generic_matrix a b c d e f g h i = ((a, b, c), (d, e, f), (g, h, i))"

definition uniqueArray :: "ident list \<Rightarrow> ident list" where
  \<comment> \<open>Modelled from the spec: \<open>Type.uniqueArray\<close> is not under src/; the list without
      its duplicates.\<close>
  "uniqueArray xs = remdups xs"

section \<open>The property order of JavaScript objects\<close>

definition digit :: "char \<Rightarrow> nat option" where
  \<comment> \<open>the value of a decimal digit\<close>
  "digit c = (if 48 \<le> (of_char c :: nat) \<and> (of_char c :: nat) \<le> 57
              then Some (of_char c - 48) else None)"

fun digits_value :: "string \<Rightarrow> nat \<Rightarrow> nat option" where
  "digits_value [] acc = Some acc"
| "digits_value (c # cs) acc =
     (case digit c of None \<Rightarrow> None | Some k \<Rightarrow> digits_value cs (10 * acc + k))"

definition array_index :: "ident \<Rightarrow> nat option" where
  \<comment> \<open>a key is an array index when it is the canonical decimal form of an integer
      from 0 to \<open>2^32 - 2\<close>\<close>
  "array_index k =
     (case k of
        [] \<Rightarrow> None
      | c # cs \<Rightarrow>
          if c = CHR ''0'' \<and> cs \<noteq> [] then None
          else (case digits_value k 0 of
                  None \<Rightarrow> None
                | Some n \<Rightarrow> if n \<le> 4294967294 then Some n else None))"

text \<open>
  A new property whose key is an array index goes among the array indices, in ascending
  order, before every other key; any other new key goes to the end.
\<close>

fun insert_index :: "nat \<Rightarrow> 'a \<Rightarrow> ('a \<Rightarrow> ident) \<Rightarrow> 'a list \<Rightarrow> 'a list" where
  "insert_index n e key [] = [e]"
| "insert_index n e key (x # xs) =
     (case array_index (key x) of
        None \<Rightarrow> e # x # xs
      | Some m \<Rightarrow> if n < m then e # x # xs else x # insert_index n e key xs)"

definition new_property :: "ident \<Rightarrow> 'a \<Rightarrow> ('a \<Rightarrow> ident) \<Rightarrow> 'a list \<Rightarrow> 'a list" where
  "new_property k e key xs =
     (case array_index k of None \<Rightarrow> xs @ [e] | Some n \<Rightarrow> insert_index n e key xs)"

definition put_key :: "ident \<Rightarrow> ident list \<Rightarrow> ident list" where
  \<comment> \<open>\<open>o[k] = ...\<close> on an object given by its keys: a key that is there keeps its place\<close>
  "put_key k ks = (if k \<in> set ks then ks else new_property k k (\<lambda>x. x) ks)"

definition put_entry :: "ident \<Rightarrow> 'v \<Rightarrow> (ident \<times> 'v) list \<Rightarrow> (ident \<times> 'v) list" where
  \<comment> \<open>\<open>o[k] = v\<close>: the value of a key that is there is overwritten in place\<close>
  "put_entry k v al =
     (if k \<in> fst ` set al then AList.update k v al else new_property k (k, v) fst al)"

section \<open>The snapshot store\<close>

definition updateCoordsCache :: "ident \<Rightarrow> group \<Rightarrow> board \<Rightarrow> group" where
  \<comment> \<open>\<open>_updateCoordsCache\<close>\<close>
  "updateCoordsCache el g b =
     (if el \<noteq> '''' \<and> el \<in> set (objects g)
      then g\<lparr>coords := put_entry el (usrCoords (points b el)) (coords g)\<rparr>
      else g)"

section \<open>The drag classifier\<close>

text \<open>
  The first loop of \<open>_update_find_drag_type\<close>. Reading \<open>this.coords[el].usrCoords\<close> of a
  member without a snapshot entry raises a TypeError.
\<close>

fun find_changed :: "real \<Rightarrow> group \<Rightarrow> board \<Rightarrow> ident list \<Rightarrow> error + ident list" where
  "find_changed e g b [] = Inr []"
| "find_changed e g b (el # els) =
     (case map_of (coords g) el of
        None \<Rightarrow> Inl TypeError
      | Some c \<Rightarrow>
          (case find_changed e g b els of
             Inl x \<Rightarrow> Inl x
           | Inr ch \<Rightarrow>
               Inr (if Coords_distance (usrCoords (points b el)) c > e then el # ch else ch)))"

definition exists_center :: "center \<Rightarrow> bool" where
  \<comment> \<open>\<open>Type.exists\<close>: neither \<open>null\<close> nor \<open>undefined\<close>\<close>
  "exists_center c = (c \<noteq> CenterNull)"

definition find_action :: "group \<Rightarrow> ident \<Rightarrow> drag_action" where
  \<comment> \<open>the role of the one moved point, lines 363 to 369\<close>
  "find_action g obj =
     (if obj \<in> set (rotationPoints g) \<and> exists_center (rotationCenter g) then Rotation
      else if obj \<in> set (scalePoints g) \<and> exists_center (scaleCenter g) then Scaling
      else if obj \<in> set (translationPoints g) then Translation
      else Nothing)"

definition update_find_drag_type :: "env \<Rightarrow> group \<Rightarrow> board \<Rightarrow> error + drag" where
  \<comment> \<open>\<open>_update_find_drag_type\<close>\<close>
  "update_find_drag_type E g b =
     (case find_changed (Mat_eps E) g b (objects g) of
        Inl x \<Rightarrow> Inl x
      | Inr ch \<Rightarrow>
          (case ch of
             [] \<Rightarrow> Inr \<lparr>action = Nothing, drag_id = [], changed = ch\<rparr>
           | dragObjId # rest \<Rightarrow>
               Inr \<lparr>action = (if length ch > 1 then Translation else find_action g dragObjId),
                    drag_id = dragObjId, changed = ch\<rparr>))"

section \<open>The center resolver and the transform builder\<close>

fun centroid_loop :: "(ident \<times> usr) list \<Rightarrow> real \<times> real \<times> nat \<Rightarrow> real \<times> real \<times> nat" where
  "centroid_loop [] acc = acc"
| "centroid_loop ((el, u) # cs) (c0, c1, len) =
     centroid_loop cs (c0 + usr1 u, c1 + usr2 u, Suc len)"

definition update_centroid_center :: "group \<Rightarrow> vec2" where
  \<comment> \<open>\<open>_update_centroid_center\<close>\<close>
  "update_centroid_center g =
     (case centroid_loop (coords g) (0, 0, 0) of
        (c0, c1, len) \<Rightarrow> if len > 0 then (c0 / real len, c1 / real len) else (c0, c1))"

definition resolve_center :: "group \<Rightarrow> board \<Rightarrow> center \<Rightarrow> vec2 option" where
  \<comment> \<open>lines 260 to 270 of \<open>update\<close>; \<open>None\<close> is the branch that returns\<close>
  "resolve_center g b c =
     (case c of
        CenterPoint p \<Rightarrow> Some (slice1 (usrCoords (points b p)))
      | CenterCentroid \<Rightarrow> Some (update_centroid_center g)
      | CenterArray v \<Rightarrow> Some v
      | CenterFun f \<Rightarrow> Some (f b)
      | CenterNull \<Rightarrow> None
      | CenterOther \<Rightarrow> None)"

definition actionCenter :: "group \<Rightarrow> drag_action \<Rightarrow> center" where
  \<comment> \<open>\<open>this[actionCenter]\<close>, lines 254 to 258\<close>
  "actionCenter g a = (if a = Rotation then rotationCenter g else scaleCenter g)"

definition scale_factor :: "string option \<Rightarrow> char \<Rightarrow> real \<Rightarrow> error + real" where
  \<comment> \<open>\<open>(this.scaleDirections[drag.id].indexOf(ch) >= 0) ? s : 1.0\<close>; a point without
      a direction raises a TypeError\<close>
  "scale_factor dir ch s =
     (case dir of None \<Rightarrow> Inl TypeError
      | Some d \<Rightarrow> Inr (if ch \<in> set d then s else 1))"

definition build_scaling :: "env \<Rightarrow> group \<Rightarrow> board \<Rightarrow> drag \<Rightarrow> usr \<Rightarrow> vec2 \<Rightarrow> error + transf option" where
  \<comment> \<open>lines 277 to 290\<close>
  "build_scaling E g b d snap cen =
     (let s = Geometry_distance (slice1 snap) cen in
      if \<bar>s\<bar> < Mat_eps E then Inr None
      else
        let s' = Geometry_distance (slice1 (usrCoords (points b (drag_id d)))) cen / s;
            dir = map_of (scaleDirections g) (drag_id d) in
        case scale_factor dir (CHR ''x'') s' of
          Inl x \<Rightarrow> Inl x
        | Inr sx \<Rightarrow>
            (case scale_factor dir (CHR ''y'') s' of
               Inl x \<Rightarrow> Inl x
             | Inr sy \<Rightarrow>
                 Inr (Some (TMat (generic_matrix 1 0 0
                                    (fst cen * (1 - sx)) sx 0
                                    (snd cen * (1 - sy)) 0 sy)))))"

definition update_transformation :: "env \<Rightarrow> group \<Rightarrow> board \<Rightarrow> drag \<Rightarrow> error + transf option" where
  \<comment> \<open>lines 246 to 294 of \<open>update\<close>: the value of \<open>t\<close>, or \<open>None\<close> when \<open>update\<close>
      returns there\<close>
  "update_transformation E g b d =
     (case action d of
        Nothing \<Rightarrow> Inr (Some TUndefined)
      | Translation \<Rightarrow>
          (case map_of (coords g) (drag_id d) of
             None \<Rightarrow> Inl TypeError
           | Some snap \<Rightarrow>
               Inr (Some (TVec (usr1 (usrCoords (points b (drag_id d))) - usr1 snap,
                                usr2 (usrCoords (points b (drag_id d))) - usr2 snap))))
      | Rotation \<Rightarrow>
          (case resolve_center g b (actionCenter g Rotation) of
             None \<Rightarrow> Inr None
           | Some cen \<Rightarrow>
               (case map_of (coords g) (drag_id d) of
                  None \<Rightarrow> Inl TypeError
                | Some snap \<Rightarrow>
                    Inr (Some (TMat (rotate_matrix
                      (Geometry_rad E (slice1 snap) cen (slice1 (usrCoords (points b (drag_id d)))))
                      (fst cen) (snd cen))))))
      | Scaling \<Rightarrow>
          (case resolve_center g b (actionCenter g Scaling) of
             None \<Rightarrow> Inr None
           | Some cen \<Rightarrow>
               (case map_of (coords g) (drag_id d) of
                  None \<Rightarrow> Inl TypeError
                | Some snap \<Rightarrow> build_scaling E g b d snap cen)))"

section \<open>The transform applier\<close>

text \<open>
  One round of the loop of \<open>_update_apply_transformation\<close>, for the key \<open>el\<close>. A value
  of \<open>t\<close> that does not fit the action (which \<open>update\<close> never passes) is a TypeError.
\<close>

definition apply_step ::
  "env \<Rightarrow> drag \<Rightarrow> transf \<Rightarrow> ident \<Rightarrow> group \<times> board \<Rightarrow> error + group \<times> board" where
  "apply_step E d t el s =
     (case s of (g, b) \<Rightarrow>
      if el \<in> boardObjects b then
        (if el \<noteq> drag_id d then
           (case action d of
              Translation \<Rightarrow>
                (if el \<notin> set (changed d) then
                   (case map_of (coords g) el of
                      None \<Rightarrow> Inl TypeError
                    | Some c \<Rightarrow>
                        (case t of
                           TVec v \<Rightarrow>
                             Inr (g, modify el
                                       (setCoordinates (euclidean (usr1 c + fst v, usr2 c + snd v))) b)
                         | _ \<Rightarrow> Inl TypeError))
                 else Inr (g, b))
            | Rotation \<Rightarrow>
                (case t of TMat m \<Rightarrow> Inr (g, modify el (applyOnce E m) b) | _ \<Rightarrow> Inl TypeError)
            | Scaling \<Rightarrow>
                (case t of TMat m \<Rightarrow> Inr (g, modify el (applyOnce E m) b) | _ \<Rightarrow> Inl TypeError)
            | Nothing \<Rightarrow> Inr (g, b))
         else
           (if action d = Rotation \<or> action d = Scaling then
              (case t of
                 TMat m \<Rightarrow>
                   (case map_of (coords g) el of
                      None \<Rightarrow> Inl TypeError
                    | Some c \<Rightarrow> Inr (g, modify el (setCoordinates (matVecMult m c)) b))
               | _ \<Rightarrow> Inl TypeError)
            else Inr (g, b)))
      else Inr (g\<lparr>objects := removeAll el (objects g)\<rparr>, b))"

fun apply_loop ::
  "env \<Rightarrow> drag \<Rightarrow> transf \<Rightarrow> ident list \<Rightarrow> group \<times> board \<Rightarrow> error + group \<times> board" where
  "apply_loop E d t [] s = Inr s"
| "apply_loop E d t (el # els) s =
     (case apply_step E d t el s of
        Inl x \<Rightarrow> Inl x
      | Inr s' \<Rightarrow> apply_loop E d t els s')"

definition update_apply_transformation ::
  "env \<Rightarrow> drag \<Rightarrow> transf \<Rightarrow> group \<Rightarrow> board \<Rightarrow> error + group \<times> board" where
  \<comment> \<open>\<open>_update_apply_transformation\<close>\<close>
  "update_apply_transformation E d t g b = apply_loop E d t (objects g) (g, b)"

section \<open>The update cycle\<close>

fun cache_loop :: "ident list \<Rightarrow> group \<Rightarrow> board \<Rightarrow> group" where
  \<comment> \<open>lines 315 to 319\<close>
  "cache_loop [] g b = g"
| "cache_loop (el # els) g b = cache_loop els (updateCoordsCache el g b) b"

definition update_finish :: "env \<Rightarrow> drag \<Rightarrow> group \<times> board \<Rightarrow> group \<times> board" where
  \<comment> \<open>lines 298 to 321: the flag is cleared, the loop over the descendants changes
      nothing (an entry \<open>{point: p}\<close> has no \<open>descendants\<close>), \<open>board.updateElements\<close>
      runs, and the snapshot of every member is taken again\<close>
  "update_finish E d s =
     (case updateElements E d ((fst s)\<lparr>needsUpdate := False\<rparr>, snd s) of
        (g2, b2) \<Rightarrow> (cache_loop (objects g2) g2 b2, b2))"

definition update :: "env \<Rightarrow> group \<Rightarrow> board \<Rightarrow> error + group \<times> board" where
  "update E g b =
     (if \<not> needsUpdate g then Inr (g, b)
      else
        case update_find_drag_type E g b of
          Inl x \<Rightarrow> Inl x
        | Inr d \<Rightarrow>
            if action d = Nothing then Inr (updateCoordsCache (drag_id d) g b, b)
            else
              (case update_transformation E g b d of
                 Inl x \<Rightarrow> Inl x
               | Inr None \<Rightarrow> Inr (g, b)
               | Inr (Some t) \<Rightarrow>
                   (case update_apply_transformation E d t g b of
                      Inl x \<Rightarrow> Inl x
                    | Inr s \<Rightarrow> Inr (update_finish E d s))))"

section \<open>Membership\<close>

definition addPoint :: "ident \<Rightarrow> group \<times> board \<Rightarrow> group \<times> board" where
  "addPoint p s =
     (case s of (g, b) \<Rightarrow>
      let g1 = g\<lparr>objects := put_key p (objects g)\<rparr>;
          g2 = updateCoordsCache p g1 b;
          g3 = g2\<lparr>translationPoints := translationPoints g2 @ [p]\<rparr>;
          pt = points b p
      in (g3, b\<lparr>points := (points b)(p := pt\<lparr>groups := uniqueArray (groups pt @ [gid g])\<rparr>)\<rparr>))"

definition removePoint :: "ident \<Rightarrow> group \<times> board \<Rightarrow> group \<times> board" where
  "removePoint p s = (case s of (g, b) \<Rightarrow> (g\<lparr>objects := removeAll p (objects g)\<rparr>, b))"

datatype role = RotationRole | TranslationRole | ScaleRole

definition addActionPoint :: "role \<Rightarrow> ident \<Rightarrow> group \<Rightarrow> group" where
  \<comment> \<open>\<open>_addActionPoint\<close>: \<open>this[action + 'Points'].push(point)\<close>\<close>
  "addActionPoint r p g =
     (case r of
        RotationRole \<Rightarrow> g\<lparr>rotationPoints := rotationPoints g @ [p]\<rparr>
      | TranslationRole \<Rightarrow> g\<lparr>translationPoints := translationPoints g @ [p]\<rparr>
      | ScaleRole \<Rightarrow> g\<lparr>scalePoints := scalePoints g @ [p]\<rparr>)"

definition addScalePoint :: "ident \<Rightarrow> string option \<Rightarrow> group \<Rightarrow> group" where
  \<comment> \<open>\<open>direction || 'xy'\<close>: a missing or empty direction is \<open>'xy'\<close>\<close>
  "addScalePoint p direction g =
     (let g1 = addActionPoint ScaleRole p g;
          dir = (case direction of None \<Rightarrow> ''xy'' | Some x \<Rightarrow> if x = '''' then ''xy'' else x)
      in g1\<lparr>scaleDirections := put_entry p dir (scaleDirections g1)\<rparr>)"

definition setRotationCenter :: "center \<Rightarrow> group \<Rightarrow> group" where
  "setRotationCenter c g = g\<lparr>rotationCenter := c\<rparr>"

definition setScaleCenter :: "center \<Rightarrow> group \<Rightarrow> group" where
  "setScaleCenter c g = g\<lparr>scaleCenter := c\<rparr>"

definition new_group :: "ident \<Rightarrow> group" where
  \<comment> \<open>the fields the constructor sets (lines 99 to 109), before it adds its points\<close>
  "new_group i =
     \<lparr>gid = i, objects = [], coords = [], needsUpdate = False,
      rotationCenter = CenterCentroid, scaleCenter = CenterNull,
      rotationPoints = [], translationPoints = [], scalePoints = [],
      scaleDirections = []\<rparr>"

datatype member_op = AddPoint ident | RemovePoint ident

fun run_ops :: "member_op list \<Rightarrow> group \<times> board \<Rightarrow> group \<times> board" where
  "run_ops [] s = s"
| "run_ops (AddPoint p # ops) s = run_ops ops (addPoint p s)"
| "run_ops (RemovePoint p # ops) s = run_ops ops (removePoint p s)"

section \<open>Notions of the specification\<close>

definition is_changed :: "env \<Rightarrow> group \<Rightarrow> board \<Rightarrow> ident \<Rightarrow> bool" where
  \<comment> \<open>a member is changed when the distance between its live coordinates and its
      snapshot entry exceeds \<open>Mat.eps\<close>\<close>
  "is_changed E g b m =
     (case map_of (coords g) m of
        None \<Rightarrow> False
      | Some c \<Rightarrow> Coords_distance (usrCoords (points b m)) c > Mat_eps E)"

definition changed_members :: "env \<Rightarrow> group \<Rightarrow> board \<Rightarrow> ident list" where
  "changed_members E g b = filter (is_changed E g b) (objects g)"

definition supported :: "center \<Rightarrow> bool" where
  \<comment> \<open>a point, \<open>'centroid'\<close>, an array or a function\<close>
  "supported c =
     (case c of CenterPoint p \<Rightarrow> True | CenterCentroid \<Rightarrow> True | CenterArray v \<Rightarrow> True
      | CenterFun f \<Rightarrow> True | CenterNull \<Rightarrow> False | CenterOther \<Rightarrow> False)"

definition cached :: "group \<Rightarrow> bool" where
  \<comment> \<open>every member has a snapshot entry\<close>
  "cached g = (set (objects g) \<subseteq> fst ` set (coords g))"

definition snapshot_count :: "group \<Rightarrow> ident \<Rightarrow> nat" where
  \<comment> \<open>the number of snapshot entries of a point\<close>
  "snapshot_count g m = length (filter (\<lambda>e. fst e = m) (coords g))"

definition snapshot_inv :: "group \<Rightarrow> bool" where
  \<comment> \<open>the keys of the snapshot are distinct, and every member has an entry\<close>
  "snapshot_inv g = (distinct (map fst (coords g)) \<and> cached g)"

section \<open>A square of four points\<close>

definition env0 :: env where
  \<comment> \<open>a scene without dependents; no example below rotates, the angle is not read\<close>
  "env0 = \<lparr>Mat_eps = 1 / 1000000, Geometry_rad = (\<lambda>p c q. 0), applyOnce = applyOnce_matrix,
            updateElements = (\<lambda>d s. s)\<rparr>"

definition env_half_turn :: env where
  \<comment> \<open>the scene of \<open>env0\<close> for a drag by a half turn about the centre\<close>
  "env_half_turn = env0\<lparr>Geometry_rad := (\<lambda>p c q. pi)\<rparr>"

definition square_board :: board where
  "square_board =
     \<lparr>points = (\<lambda>i. \<lparr>usrCoords = (1, 0, 0), groups = []\<rparr>)
        (''B'' := \<lparr>usrCoords = (1, 2, 0), groups = []\<rparr>,
         ''C'' := \<lparr>usrCoords = (1, 2, 2), groups = []\<rparr>,
         ''D'' := \<lparr>usrCoords = (1, 0, 2), groups = []\<rparr>),
      boardObjects = {''A'', ''B'', ''C'', ''D''}\<rparr>"

definition square :: "group \<times> board" where
  \<comment> \<open>the group of the points A, B, C and D, as the constructor builds it\<close>
  "square =
     run_ops [AddPoint ''A'', AddPoint ''B'', AddPoint ''C'', AddPoint ''D'']
       (new_group ''G'', square_board)"

definition dirty :: "group \<times> board \<Rightarrow> group \<times> board" where
  \<comment> \<open>the board marks the group before it calls \<open>update\<close>\<close>
  "dirty s = ((fst s)\<lparr>needsUpdate := True\<rparr>, snd s)"

definition move :: "ident \<Rightarrow> vec2 \<Rightarrow> group \<times> board \<Rightarrow> group \<times> board" where
  \<comment> \<open>a point is dragged to a new position\<close>
  "move p v s = (fst s, modify p (setCoordinates (euclidean v)) (snd s))"

definition square_roles :: "group \<times> board" where
  \<comment> \<open>A is made a rotation point and a scale point, and the scale centre is set to C
      (the rotation centre is \<open>'centroid'\<close> from the start)\<close>
  "square_roles =
     (setScaleCenter (CenterPoint ''C'')
        (addScalePoint ''A'' None (addActionPoint RotationRole ''A'' (fst square))),
      snd square)"

definition square_unsupported :: "group \<times> board" where
  \<comment> \<open>A is made a rotation point and the rotation centre is set to a number\<close>
  "square_unsupported =
     (setRotationCenter CenterOther (addActionPoint RotationRole ''A'' (fst square)), snd square)"

definition square_scale_A :: "group \<times> board" where
  \<comment> \<open>A is made a scale point and the scale centre is the array \<open>[0, 0]\<close>, where A is\<close>
  "square_scale_A =
     (setScaleCenter (CenterArray (0, 0)) (addScalePoint ''A'' None (fst square)), snd square)"

definition square_scale_B :: "group \<times> board" where
  \<comment> \<open>B is made a scale point and the scale centre is the array \<open>[0, 0]\<close>\<close>
  "square_scale_B =
     (setScaleCenter (CenterArray (0, 0)) (addScalePoint ''B'' None (fst square)), snd square)"

definition reentrant :: "env \<Rightarrow> env" where
  \<comment> \<open>a scene whose \<open>board.updateElements\<close> calls \<open>update\<close> of the group again\<close>
  "reentrant E =
     E\<lparr>updateElements :=
         (\<lambda>d s. case update E (fst s) (snd s) of Inl x \<Rightarrow> s | Inr s' \<Rightarrow> s')\<rparr>"

definition coords_after :: "error + group \<times> board \<Rightarrow> ident \<Rightarrow> usr option" where
  \<comment> \<open>the coordinates of a point in the state a call returns\<close>
  "coords_after r m =
     (case r of Inl x \<Rightarrow> None | Inr s \<Rightarrow> Some (usrCoords (points (snd s) m)))"

section \<open>Facts about the property order\<close>

lemma set_insert_index: "set (insert_index n e key xs) = insert e (set xs)"
  by (induction xs) (auto split: option.splits)

lemma set_new_property: "set (new_property k e key xs) = insert e (set xs)"
  by (simp add: new_property_def set_insert_index split: option.splits)

lemma set_put_key: "set (put_key k ks) = insert k (set ks)"
  by (auto simp: put_key_def set_new_property)

lemma distinct_insert_index:
  "distinct (map f xs) \<Longrightarrow> f e \<notin> f ` set xs \<Longrightarrow> distinct (map f (insert_index n e key xs))"
  by (induction xs) (auto simp: set_insert_index split: option.splits)

lemma distinct_new_property:
  "distinct (map f xs) \<Longrightarrow> f e \<notin> f ` set xs \<Longrightarrow> distinct (map f (new_property k e key xs))"
  by (simp add: new_property_def distinct_insert_index split: option.splits)

lemma distinct_put_key: "distinct ks \<Longrightarrow> distinct (put_key k ks)"
  using distinct_new_property [of "\<lambda>x. x" ks k k "\<lambda>x. x"]
  by (simp add: put_key_def)

lemma put_key_member: "k \<in> set ks \<Longrightarrow> put_key k ks = ks"
  by (simp add: put_key_def)

lemma keys_put_entry: "fst ` set (put_entry k v al) = insert k (fst ` set al)"
  by (auto simp: put_entry_def set_new_property dom_update)

lemma distinct_put_entry:
  "distinct (map fst al) \<Longrightarrow> distinct (map fst (put_entry k v al))"
  using distinct_new_property [of fst al "(k, v)" k fst]
  by (simp add: put_entry_def distinct_update)

lemma map_of_insert_index:
  "k \<notin> fst ` set al \<Longrightarrow> map_of (insert_index n (k, v) fst al) = (map_of al)(k \<mapsto> v)"
proof (induction al)
  case Nil
  then show ?case by simp
next
  case (Cons x al)
  then show ?case by (cases x) (auto split: option.splits)
qed

lemma map_of_snoc:
  "k \<notin> fst ` set al \<Longrightarrow> map_of (al @ [(k, v)]) = (map_of al)(k \<mapsto> v)"
  by (induction al) auto

lemma map_of_new_property:
  "k \<notin> fst ` set al \<Longrightarrow> map_of (new_property k (k, v) fst al) = (map_of al)(k \<mapsto> v)"
  by (simp add: new_property_def map_of_insert_index map_of_snoc del: map_of_append
      split: option.splits)

lemma map_of_put_entry: "map_of (put_entry k v al) = (map_of al)(k \<mapsto> v)"
  by (simp add: put_entry_def update_conv' map_of_new_property)

lemma put_entry_lookup: "map_of (put_entry k v al) k = Some v"
  by (simp add: map_of_put_entry)

lemmas js_simps = put_key_def put_entry_def new_property_def array_index_def digit_def

lemma property_order_example:
  "put_key ''1'' (put_key ''B'' (put_key ''10'' (put_key ''2'' (put_key ''A'' []))))
     = [''1'', ''2'', ''10'', ''A'', ''B'']"
  by (simp add: js_simps)

section \<open>Evaluation of the library functions\<close>

lemma sqrt_gt_iff: "0 \<le> e \<Longrightarrow> (e < sqrt x) = (e * e < x)"
  by (metis real_sqrt_less_iff real_sqrt_abs2 abs_of_nonneg)

lemma Coords_distance_gt:
  "0 \<le> e \<Longrightarrow> (e < Coords_distance u c) =
     (e * e < (usr1 u - usr1 c) * (usr1 u - usr1 c) + (usr2 u - usr2 c) * (usr2 u - usr2 c))"
  by (simp add: Coords_distance_def sqrt_gt_iff)

lemma usr_simps: "usr1 (z, x, y) = x" "usr2 (z, x, y) = y" "slice1 (z, x, y) = (x, y)"
  by (simp_all add: usr1_def usr2_def slice1_def)

lemma is_changed_env0:
  "is_changed env0 g b m =
     (case map_of (coords g) m of
        None \<Rightarrow> False
      | Some c \<Rightarrow>
          1 / 1000000000000
            < (usr1 (usrCoords (points b m)) - usr1 c) * (usr1 (usrCoords (points b m)) - usr1 c)
              + (usr2 (usrCoords (points b m)) - usr2 c) * (usr2 (usrCoords (points b m)) - usr2 c))"
proof -
  have "(0::real) \<le> 1 / 1000000" by simp
  from Coords_distance_gt [OF this] show ?thesis
    by (simp add: is_changed_def env0_def split: option.split)
qed

lemma Geometry_distance_axis: "Geometry_distance (x1, y) (x2, y) = \<bar>x1 - x2\<bar>"
  by (simp add: Geometry_distance_def)

lemma square_eq:
  "square =
    (\<lparr>gid = ''G'', objects = [''A'', ''B'', ''C'', ''D''],
      coords = [(''A'', 1, 0, 0), (''B'', 1, 2, 0), (''C'', 1, 2, 2), (''D'', 1, 0, 2)],
      needsUpdate = False, rotationCenter = CenterCentroid, scaleCenter = CenterNull,
      rotationPoints = [], translationPoints = [''A'', ''B'', ''C'', ''D''],
      scalePoints = [], scaleDirections = []\<rparr>,
     \<lparr>points = (\<lambda>i. \<lparr>usrCoords = (1, 0, 0), groups = []\<rparr>)
        (''A'' := \<lparr>usrCoords = (1, 0, 0), groups = [''G'']\<rparr>,
         ''B'' := \<lparr>usrCoords = (1, 2, 0), groups = [''G'']\<rparr>,
         ''C'' := \<lparr>usrCoords = (1, 2, 2), groups = [''G'']\<rparr>,
         ''D'' := \<lparr>usrCoords = (1, 0, 2), groups = [''G'']\<rparr>),
      boardObjects = {''A'', ''B'', ''C'', ''D''}\<rparr>)"
  by (simp add: square_def addPoint_def new_group_def square_board_def updateCoordsCache_def
      uniqueArray_def Let_def fun_upd_twist js_simps)

lemmas ex_simps = dirty_def move_def square_eq modify_def setCoordinates_def euclidean_def
  usr_simps

lemma is_changed_eps:
  "Mat_eps E = 1 / 1000000 \<Longrightarrow>
   is_changed E g b m =
     (case map_of (coords g) m of
        None \<Rightarrow> False
      | Some c \<Rightarrow>
          1 / 1000000000000
            < (usr1 (usrCoords (points b m)) - usr1 c) * (usr1 (usrCoords (points b m)) - usr1 c)
              + (usr2 (usrCoords (points b m)) - usr2 c) * (usr2 (usrCoords (points b m)) - usr2 c))"
proof -
  assume e: "Mat_eps E = 1 / 1000000"
  have "(0::real) \<le> 1 / 1000000" by simp
  note gt = Coords_distance_gt [OF this]
  have "is_changed E g b m =
     (case map_of (coords g) m of
        None \<Rightarrow> False
      | Some c \<Rightarrow> 1 / 1000000 < Coords_distance (usrCoords (points b m)) c)"
    by (simp only: is_changed_def e)
  with gt show ?thesis by (simp split: option.split)
qed

lemmas role_simps = square_roles_def square_unsupported_def square_scale_A_def square_scale_B_def
  setScaleCenter_def setRotationCenter_def addScalePoint_def addActionPoint_def Let_def js_simps

lemma centroid_loop_sum:
  "centroid_loop cs (a, c, n) =
     (a + sum_list (map (\<lambda>e. usr1 (snd e)) cs), c + sum_list (map (\<lambda>e. usr2 (snd e)) cs),
      n + length cs)"
  by (induction cs arbitrary: a c n) auto

lemma centroid_mean:
  "update_centroid_center g =
     (if coords g = [] then (0, 0)
      else (sum_list (map (\<lambda>e. usr1 (snd e)) (coords g)) / real (length (coords g)),
            sum_list (map (\<lambda>e. usr2 (snd e)) (coords g)) / real (length (coords g))))"
  by (simp add: update_centroid_center_def centroid_loop_sum)

section \<open>The classifier on a group whose members all have a snapshot\<close>

lemma map_of_cached: "cached g \<Longrightarrow> m \<in> set (objects g) \<Longrightarrow> \<exists>c. map_of (coords g) m = Some c"
  unfolding cached_def
  by (metis subsetD map_of_eq_None_iff not_Some_eq)

lemma find_changed_filter:
  "set els \<subseteq> fst ` set (coords g) \<Longrightarrow>
   find_changed (Mat_eps E) g b els = Inr (filter (is_changed E g b) els)"
proof (induction els)
  case Nil
  then show ?case by simp
next
  case (Cons el els)
  then obtain c where c: "map_of (coords g) el = Some c"
    by (metis list.set_intros(1) subsetD map_of_eq_None_iff not_Some_eq)
  with Cons show ?case by (simp add: is_changed_def)
qed

lemma find_changed_cached:
  "cached g \<Longrightarrow> find_changed (Mat_eps E) g b (objects g) = Inr (changed_members E g b)"
  by (simp add: cached_def changed_members_def find_changed_filter)

lemma classify_single:
  "cached g \<Longrightarrow> changed_members E g b = [p] \<Longrightarrow>
   update_find_drag_type E g b = Inr \<lparr>action = find_action g p, drag_id = p, changed = [p]\<rparr>"
  by (simp add: update_find_drag_type_def find_changed_cached)

text \<open>
  C2. When exactly one member has moved (the snapshot holding every member), the
  classifier returns that member with the action its roles give in the order rotation,
  scaling, translation; in particular a member of both \<open>rotationPoints\<close> and
  \<open>scalePoints\<close>, with both centres set, gives a rotation and not a scaling.
\<close>

theorem role_precedence:
  assumes "cached g" and "changed_members E g b = [p]"
  shows "update_find_drag_type E g b =
           Inr \<lparr>action =
                  (if p \<in> set (rotationPoints g) \<and> rotationCenter g \<noteq> CenterNull then Rotation
                   else if p \<in> set (scalePoints g) \<and> scaleCenter g \<noteq> CenterNull then Scaling
                   else if p \<in> set (translationPoints g) then Translation
                   else Nothing),
                drag_id = p, changed = [p]\<rparr>
         \<and> (p \<in> set (rotationPoints g) \<and> p \<in> set (scalePoints g)
              \<and> rotationCenter g \<noteq> CenterNull \<and> scaleCenter g \<noteq> CenterNull
            \<longrightarrow> update_find_drag_type E g b = Inr \<lparr>action = Rotation, drag_id = p, changed = [p]\<rparr>)"
  using classify_single [OF assms]
  by (simp add: find_action_def exists_center_def)

theorem role_precedence_witness:
  "cached (fst (move ''A'' (3, 1) square_roles))
   \<and> changed_members env0 (fst (move ''A'' (3, 1) square_roles))
        (snd (move ''A'' (3, 1) square_roles)) = [''A'']
   \<and> ''A'' \<in> set (rotationPoints (fst (move ''A'' (3, 1) square_roles)))
   \<and> ''A'' \<in> set (scalePoints (fst (move ''A'' (3, 1) square_roles)))
   \<and> update_find_drag_type env0 (fst (move ''A'' (3, 1) square_roles))
        (snd (move ''A'' (3, 1) square_roles))
       = Inr \<lparr>action = Rotation, drag_id = ''A'', changed = [''A'']\<rparr>"
proof -
  have c: "cached (fst (move ''A'' (3, 1) square_roles))"
    by (simp add: cached_def move_def square_roles_def square_eq setScaleCenter_def
        addScalePoint_def addActionPoint_def Let_def)
  have m: "changed_members env0 (fst (move ''A'' (3, 1) square_roles))
             (snd (move ''A'' (3, 1) square_roles)) = [''A'']"
    by (simp add: changed_members_def is_changed_env0 move_def square_roles_def square_eq
        setScaleCenter_def addScalePoint_def addActionPoint_def Let_def
        modify_def setCoordinates_def euclidean_def usr_simps)
  have r: "''A'' \<in> set (rotationPoints (fst (move ''A'' (3, 1) square_roles)))
           \<and> ''A'' \<in> set (scalePoints (fst (move ''A'' (3, 1) square_roles)))
           \<and> rotationCenter (fst (move ''A'' (3, 1) square_roles)) \<noteq> CenterNull
           \<and> scaleCenter (fst (move ''A'' (3, 1) square_roles)) \<noteq> CenterNull"
    by (simp add: move_def square_roles_def square_eq setScaleCenter_def
        addScalePoint_def addActionPoint_def Let_def)
  from role_precedence [OF c m] r c m show ?thesis by simp
qed

section \<open>The loop of the applier\<close>

lemma apply_step_frame:
  "apply_step E d t el (g, b) = Inr (g', b') \<Longrightarrow>
   coords g' = coords g \<and> boardObjects b' = boardObjects b
   \<and> (\<forall>x. x \<noteq> el \<longrightarrow> points b' x = points b x)"
  by (auto simp: apply_step_def modify_def setCoordinates_def
      split: if_splits drag_action.splits option.splits transf.splits)

lemma apply_loop_frame:
  "apply_loop E d t els (g, b) = Inr (g', b') \<Longrightarrow>
   coords g' = coords g \<and> boardObjects b' = boardObjects b
   \<and> (\<forall>x. x \<notin> set els \<longrightarrow> points b' x = points b x)"
proof (induction els arbitrary: g b)
  case Nil
  then show ?case by simp
next
  case (Cons el els)
  from Cons.prems obtain g1 b1 where
    step: "apply_step E d t el (g, b) = Inr (g1, b1)" and
    rest: "apply_loop E d t els (g1, b1) = Inr (g', b')"
    by (auto split: sum.splits)
  from apply_step_frame [OF step] Cons.IH [OF rest] show ?case by auto
qed

lemma apply_step_translation_shift:
  "action d = Translation \<Longrightarrow> apply_step E d (TVec v) m (g, b) = Inr (g', b') \<Longrightarrow>
   m \<in> boardObjects b \<Longrightarrow> m \<noteq> drag_id d \<Longrightarrow> m \<notin> set (changed d) \<Longrightarrow>
   map_of (coords g) m = Some c \<Longrightarrow>
   usrCoords (points b' m) = (1, usr1 c + fst v, usr2 c + snd v)"
  by (auto simp: apply_step_def modify_def setCoordinates_def euclidean_def)

lemma apply_loop_translation_shift:
  "action d = Translation \<Longrightarrow> apply_loop E d (TVec v) els (g, b) = Inr (g', b') \<Longrightarrow>
   m \<in> set els \<Longrightarrow> m \<in> boardObjects b \<Longrightarrow> m \<noteq> drag_id d \<Longrightarrow> m \<notin> set (changed d) \<Longrightarrow>
   map_of (coords g) m = Some c \<Longrightarrow>
   usrCoords (points b' m) = (1, usr1 c + fst v, usr2 c + snd v)"
proof (induction els arbitrary: g b)
  case Nil
  then show ?case by simp
next
  case (Cons el els)
  from Cons.prems(2) obtain g1 b1 where
    step: "apply_step E d (TVec v) el (g, b) = Inr (g1, b1)" and
    rest: "apply_loop E d (TVec v) els (g1, b1) = Inr (g', b')"
    by (auto split: sum.splits)
  note fr = apply_step_frame [OF step]
  show ?case
  proof (cases "m \<in> set els")
    case True
    with Cons.IH [OF Cons.prems(1) rest] Cons.prems fr show ?thesis by simp
  next
    case False
    with Cons.prems have "m = el" by simp
    with apply_step_translation_shift [OF Cons.prems(1) _ Cons.prems(4,5,6,7)] step
    have "usrCoords (points b1 m) = (1, usr1 c + fst v, usr2 c + snd v)" by simp
    with apply_loop_frame [OF rest] False show ?thesis by simp
  qed
qed

lemma apply_step_translation_skip:
  "action d = Translation \<Longrightarrow> apply_step E d t el (g, b) = Inr (g', b') \<Longrightarrow>
   m = drag_id d \<or> m \<in> set (changed d) \<Longrightarrow> points b' m = points b m"
  by (auto simp: apply_step_def modify_def setCoordinates_def
      split: if_splits option.splits transf.splits)

lemma apply_loop_translation_skip:
  "action d = Translation \<Longrightarrow> apply_loop E d t els (g, b) = Inr (g', b') \<Longrightarrow>
   m = drag_id d \<or> m \<in> set (changed d) \<Longrightarrow> points b' m = points b m"
proof (induction els arbitrary: g b)
  case Nil
  then show ?case by simp
next
  case (Cons el els)
  from Cons.prems(2) obtain g1 b1 where
    step: "apply_step E d t el (g, b) = Inr (g1, b1)" and
    rest: "apply_loop E d t els (g1, b1) = Inr (g', b')"
    by (auto split: sum.splits)
  from Cons.IH [OF Cons.prems(1) rest Cons.prems(3)]
    apply_step_translation_skip [OF Cons.prems(1) step Cons.prems(3)]
  show ?case by simp
qed

lemma apply_step_translation_total:
  "action d = Translation \<Longrightarrow> el \<in> fst ` set (coords g) \<Longrightarrow>
   \<exists>g' b'. apply_step E d (TVec v) el (g, b) = Inr (g', b')"
proof -
  assume a: "action d = Translation" and "el \<in> fst ` set (coords g)"
  then obtain c where "map_of (coords g) el = Some c"
    by (metis map_of_eq_None_iff not_Some_eq)
  with a show ?thesis by (simp add: apply_step_def)
qed

lemma apply_loop_translation_total:
  "action d = Translation \<Longrightarrow> set els \<subseteq> fst ` set (coords g) \<Longrightarrow>
   \<exists>g' b'. apply_loop E d (TVec v) els (g, b) = Inr (g', b')"
proof (induction els arbitrary: g b)
  case Nil
  then show ?case by simp
next
  case (Cons el els)
  from Cons.prems obtain g1 b1 where
    step: "apply_step E d (TVec v) el (g, b) = Inr (g1, b1)"
    using apply_step_translation_total [where d = d and el = el and g = g and v = v and b = b and E = E] by auto
  from apply_step_frame [OF step] Cons.prems have "set els \<subseteq> fst ` set (coords g1)" by simp
  from Cons.IH [OF Cons.prems(1) this] step show ?case by simp
qed

lemma apply_step_matrix_other:
  "action d = Rotation \<or> action d = Scaling \<Longrightarrow> apply_step E d (TMat M) m (g, b) = Inr (g', b') \<Longrightarrow>
   m \<in> boardObjects b \<Longrightarrow> m \<noteq> drag_id d \<Longrightarrow>
   points b' m = applyOnce E M (points b m)"
  by (auto simp: apply_step_def modify_def setCoordinates_def)

lemma apply_step_matrix_source:
  "action d = Rotation \<or> action d = Scaling \<Longrightarrow> apply_step E d (TMat M) m (g, b) = Inr (g', b') \<Longrightarrow>
   m \<in> boardObjects b \<Longrightarrow> m = drag_id d \<Longrightarrow> map_of (coords g) m = Some c \<Longrightarrow>
   usrCoords (points b' m) = matVecMult M c"
  by (auto simp: apply_step_def modify_def setCoordinates_def)

lemma apply_loop_matrix_other:
  "action d = Rotation \<or> action d = Scaling \<Longrightarrow> distinct els \<Longrightarrow>
   apply_loop E d (TMat M) els (g, b) = Inr (g', b') \<Longrightarrow>
   m \<in> set els \<Longrightarrow> m \<in> boardObjects b \<Longrightarrow> m \<noteq> drag_id d \<Longrightarrow>
   points b' m = applyOnce E M (points b m)"
proof (induction els arbitrary: g b)
  case Nil
  then show ?case by simp
next
  case (Cons el els)
  from Cons.prems(3) obtain g1 b1 where
    step: "apply_step E d (TMat M) el (g, b) = Inr (g1, b1)" and
    rest: "apply_loop E d (TMat M) els (g1, b1) = Inr (g', b')"
    by (auto split: sum.splits)
  note fr = apply_step_frame [OF step]
  show ?case
  proof (cases "m = el")
    case True
    with Cons.prems(2) have "m \<notin> set els" by simp
    with apply_loop_frame [OF rest] have "points b' m = points b1 m" by simp
    with apply_step_matrix_other [OF Cons.prems(1) _ Cons.prems(5,6)] step True
    show ?thesis by simp
  next
    case False
    with Cons.prems have "m \<in> set els" "distinct els" by simp_all
    with Cons.IH [OF Cons.prems(1) _ rest] Cons.prems fr False show ?thesis by simp
  qed
qed

lemma apply_loop_matrix_source:
  "action d = Rotation \<or> action d = Scaling \<Longrightarrow> distinct els \<Longrightarrow>
   apply_loop E d (TMat M) els (g, b) = Inr (g', b') \<Longrightarrow>
   m \<in> set els \<Longrightarrow> m \<in> boardObjects b \<Longrightarrow> m = drag_id d \<Longrightarrow> map_of (coords g) m = Some c \<Longrightarrow>
   usrCoords (points b' m) = matVecMult M c"
proof (induction els arbitrary: g b)
  case Nil
  then show ?case by simp
next
  case (Cons el els)
  from Cons.prems(3) obtain g1 b1 where
    step: "apply_step E d (TMat M) el (g, b) = Inr (g1, b1)" and
    rest: "apply_loop E d (TMat M) els (g1, b1) = Inr (g', b')"
    by (auto split: sum.splits)
  note fr = apply_step_frame [OF step]
  show ?case
  proof (cases "m = el")
    case True
    with Cons.prems(2) have "m \<notin> set els" by simp
    with apply_loop_frame [OF rest] have "points b' m = points b1 m" by simp
    with apply_step_matrix_source [OF Cons.prems(1) _ Cons.prems(5,6,7)] step True
    show ?thesis by simp
  next
    case False
    with Cons.prems have "m \<in> set els" "distinct els" by simp_all
    with Cons.IH [OF Cons.prems(1) _ rest] Cons.prems fr False show ?thesis by simp
  qed
qed

lemma apply_step_matrix_total:
  "action d = Rotation \<or> action d = Scaling \<Longrightarrow> drag_id d \<in> fst ` set (coords g) \<Longrightarrow>
   \<exists>g' b'. apply_step E d (TMat M) el (g, b) = Inr (g', b')"
proof -
  assume a: "action d = Rotation \<or> action d = Scaling" and "drag_id d \<in> fst ` set (coords g)"
  then obtain c where "map_of (coords g) (drag_id d) = Some c"
    by (metis map_of_eq_None_iff not_Some_eq)
  with a show ?thesis by (auto simp add: apply_step_def)
qed

lemma apply_loop_matrix_total:
  "action d = Rotation \<or> action d = Scaling \<Longrightarrow> drag_id d \<in> fst ` set (coords g) \<Longrightarrow>
   \<exists>g' b'. apply_loop E d (TMat M) els (g, b) = Inr (g', b')"
proof (induction els arbitrary: g b)
  case Nil
  then show ?case by simp
next
  case (Cons el els)
  from Cons.prems obtain g1 b1 where
    step: "apply_step E d (TMat M) el (g, b) = Inr (g1, b1)"
    using apply_step_matrix_total [where d = d and g = g and M = M and el = el and b = b and E = E] by auto
  from apply_step_frame [OF step] Cons.prems have "drag_id d \<in> fst ` set (coords g1)" by simp
  from Cons.IH [OF Cons.prems(1) this] step show ?case by simp
qed

lemma applyOnce_matrix_coords:
  "usrCoords (applyOnce_matrix M pt) = matVecMult M (usrCoords pt)"
  by (simp add: applyOnce_matrix_def setCoordinates_def)

lemma apply_loop_same_applyOnce:
  "applyOnce E = applyOnce E' \<Longrightarrow> apply_loop E d t els s = apply_loop E' d t els s"
proof (induction els arbitrary: s)
  case Nil
  then show ?case by simp
next
  case (Cons el els)
  from Cons.prems have "apply_step E d t el s = apply_step E' d t el s"
    by (simp add: apply_step_def split: prod.splits drag_action.splits transf.splits)
  with Cons show ?case by (simp split: sum.splits)
qed

text \<open>
  Under a rotation or a scaling the applier reads the snapshot of the drag source
  alone: two groups that differ in the snapshot entries of other members only give the
  same board, whatever \<open>applyOnce\<close> does with the point it is handed.
\<close>

lemma apply_step_reads_source_snapshot:
  "action d = Rotation \<or> action d = Scaling \<Longrightarrow>
   map_of (coords g) (drag_id d) = map_of (coords g') (drag_id d) \<Longrightarrow>
   apply_step E d (TMat M) el (g, b) = Inr (g1, b1) \<Longrightarrow>
   \<exists>g1'. apply_step E d (TMat M) el (g', b) = Inr (g1', b1) \<and> coords g1' = coords g'"
  by (auto simp: apply_step_def split: if_splits option.splits)

lemma apply_loop_reads_source_snapshot:
  "action d = Rotation \<or> action d = Scaling \<Longrightarrow>
   map_of (coords g) (drag_id d) = map_of (coords g') (drag_id d) \<Longrightarrow>
   apply_loop E d (TMat M) els (g, b) = Inr (g1, b1) \<Longrightarrow>
   \<exists>g1'. apply_loop E d (TMat M) els (g', b) = Inr (g1', b1)"
proof (induction els arbitrary: g g' b)
  case Nil
  then show ?case by simp
next
  case (Cons el els)
  from Cons.prems(3) obtain g2 b2 where
    step: "apply_step E d (TMat M) el (g, b) = Inr (g2, b2)" and
    rest: "apply_loop E d (TMat M) els (g2, b2) = Inr (g1, b1)"
    by (auto split: sum.splits)
  from apply_step_reads_source_snapshot [OF Cons.prems(1,2) step]
  obtain g2' where
    step': "apply_step E d (TMat M) el (g', b) = Inr (g2', b2)" and c': "coords g2' = coords g'"
    by blast
  from apply_step_frame [OF step] c' Cons.prems(2)
  have "map_of (coords g2) (drag_id d) = map_of (coords g2') (drag_id d)" by simp
  from Cons.IH [OF Cons.prems(1) this rest] step' show ?case by simp
qed

section \<open>Facts about the update cycle\<close>

lemma Geometry_distance_nonneg: "0 \<le> Geometry_distance p q"
  by (simp add: Geometry_distance_def)

lemma not_needsUpdate: "\<not> needsUpdate g \<Longrightarrow> update E g b = Inr (g, b)"
  by (simp add: update_def)

lemma resolve_center_None: "(resolve_center g b c = None) = (\<not> supported c)"
  by (simp add: resolve_center_def supported_def split: center.splits)

lemma find_drag_type_cached:
  "cached g \<Longrightarrow> update_find_drag_type E g b = Inr d \<Longrightarrow> action d \<noteq> Nothing \<Longrightarrow>
   changed d = changed_members E g b \<and> drag_id d \<in> set (changed d)
   \<and> (action d \<noteq> Translation \<longrightarrow> changed d = [drag_id d])"
  by (auto simp: update_find_drag_type_def find_changed_cached split: list.splits if_splits)

lemma changed_members_member:
  "m \<in> set (changed_members E g b) \<Longrightarrow> m \<in> set (objects g) \<and> is_changed E g b m"
  by (simp add: changed_members_def)

lemma update_applied:
  "needsUpdate g \<Longrightarrow> update_find_drag_type E g b = Inr d \<Longrightarrow> action d \<noteq> Nothing \<Longrightarrow>
   update_transformation E g b d = Inr (Some t) \<Longrightarrow>
   update_apply_transformation E d t g b = Inr s \<Longrightarrow>
   update E g b = Inr (update_finish E d s)"
  by (simp add: update_def)

lemma transformation_fits_action:
  "update_transformation E g b d = Inr (Some t) \<Longrightarrow>
   (case action d of
      Nothing \<Rightarrow> t = TUndefined
    | Translation \<Rightarrow> (\<exists>v. t = TVec v)
    | Rotation \<Rightarrow> (\<exists>m. t = TMat m)
    | Scaling \<Rightarrow> (\<exists>m. t = TMat m))"
  by (auto simp: update_transformation_def build_scaling_def scale_factor_def Let_def
      simp del: split_paired_Ex
      split: drag_action.splits option.splits if_splits sum.splits)

lemma update_finish_board:
  "updateElements E d ((fst s)\<lparr>needsUpdate := False\<rparr>, snd s) = (g2, b2) \<Longrightarrow>
   snd (update_finish E d s) = b2"
  by (simp add: update_finish_def)

lemma update_finish_env0:
  "update_finish env0 d (g1, b1) = (cache_loop (objects g1) (g1\<lparr>needsUpdate := False\<rparr>) b1, b1)"
  by (simp add: update_finish_def env0_def)

lemma Geometry_distance_small:
  "Geometry_distance p q < e \<Longrightarrow> \<bar>Geometry_distance p q\<bar> < e"
  using Geometry_distance_nonneg [of p q] by simp

lemma resolve_center_unsupported: "\<not> supported c \<Longrightarrow> resolve_center g b c = None"
  by (simp add: resolve_center_None)

section \<open>Translation\<close>

text \<open>
  C1, as amended. In a group whose members are all in \<open>translationPoints\<close>, let
  exactly one member \<open>p\<close> have moved, by \<open>(dx, dy)\<close> from its snapshot, and let \<open>p\<close>
  trigger neither a rotation nor a scaling: it is not in \<open>rotationPoints\<close> with the
  rotation centre set, nor in \<open>scalePoints\<close> with the scale centre set. Then \<open>update\<close> resolves a translation, and in the state it
  hands to \<open>board.updateElements\<close> every other member that is on the board stands at its
  snapshot plus \<open>(dx, dy)\<close>, while the point object of \<open>p\<close> is as it was set.
\<close>

theorem translation_of_single_move:
  assumes dirty: "needsUpdate g" and cached: "cached g"
    and roles: "set (objects g) \<subseteq> set (translationPoints g)"
    and one: "changed_members E g b = [p]"
    and norot: "\<not> (p \<in> set (rotationPoints g) \<and> rotationCenter g \<noteq> CenterNull)"
    and noscale: "\<not> (p \<in> set (scalePoints g) \<and> scaleCenter g \<noteq> CenterNull)"
    and snap: "map_of (coords g) p = Some sp"
    and dx: "dx = usr1 (usrCoords (points b p)) - usr1 sp"
    and dy: "dy = usr2 (usrCoords (points b p)) - usr2 sp"
  shows "\<exists>g1 b1.
           update_apply_transformation E \<lparr>action = Translation, drag_id = p, changed = [p]\<rparr>
               (TVec (dx, dy)) g b = Inr (g1, b1)
         \<and> update E g b
             = Inr (update_finish E \<lparr>action = Translation, drag_id = p, changed = [p]\<rparr> (g1, b1))
         \<and> points b1 p = points b p
         \<and> (\<forall>m \<in> set (objects g). m \<noteq> p \<longrightarrow> m \<in> boardObjects b \<longrightarrow>
              (\<exists>c. map_of (coords g) m = Some c
                 \<and> usrCoords (points b1 m) = (1, usr1 c + dx, usr2 c + dy)))"
proof -
  let ?d = "\<lparr>action = Translation, drag_id = p, changed = [p]\<rparr>"
  have pm: "p \<in> set (objects g)"
    using changed_members_member [of p E g b] one by simp
  with roles have "p \<in> set (translationPoints g)" by auto
  with norot noscale have "find_action g p = Translation"
    by (simp add: find_action_def exists_center_def)
  with classify_single [OF cached one]
  have cls: "update_find_drag_type E g b = Inr ?d" by simp
  have tr: "update_transformation E g b ?d = Inr (Some (TVec (dx, dy)))"
    by (simp add: update_transformation_def snap dx dy)
  from cached have "set (objects g) \<subseteq> fst ` set (coords g)" by (simp add: cached_def)
  from apply_loop_translation_total
    [where d = ?d and els = "objects g" and g = g and v = "(dx, dy)" and b = b and E = E, OF _ this]
  obtain g1 b1 where
    ap: "apply_loop E ?d (TVec (dx, dy)) (objects g) (g, b) = Inr (g1, b1)" by auto
  then have ap': "update_apply_transformation E ?d (TVec (dx, dy)) g b = Inr (g1, b1)"
    by (simp add: update_apply_transformation_def)
  have up: "update E g b = Inr (update_finish E ?d (g1, b1))"
    using update_applied [OF dirty cls _ tr ap'] by simp
  have keep: "points b1 p = points b p"
    using apply_loop_translation_skip [OF _ ap, of p] by simp
  have shift: "\<exists>c. map_of (coords g) m = Some c
                 \<and> usrCoords (points b1 m) = (1, usr1 c + dx, usr2 c + dy)"
    if m: "m \<in> set (objects g)" "m \<noteq> p" "m \<in> boardObjects b" for m
  proof -
    from map_of_cached [OF cached m(1)] obtain c where c: "map_of (coords g) m = Some c" ..
    from apply_loop_translation_shift [OF _ ap m(1) m(3) _ _ c] m(2)
    show ?thesis using c by simp
  qed
  from ap' up keep shift show ?thesis by blast
qed

theorem translation_of_single_move_witness:
  "changed_members env0 (fst (dirty (move ''A'' (3, 1) square)))
       (snd (dirty (move ''A'' (3, 1) square))) = [''A'']
   \<and> map (\<lambda>m. usrCoords (points
         (snd (projr (update env0 (fst (dirty (move ''A'' (3, 1) square)))
                        (snd (dirty (move ''A'' (3, 1) square)))))) m))
        [''A'', ''B'', ''C'', ''D'']
      = [(1, 3, 1), (1, 5, 1), (1, 5, 3), (1, 3, 3)]"
proof -
  let ?g = "fst (dirty (move ''A'' (3, 1) square))"
  let ?b = "snd (dirty (move ''A'' (3, 1) square))"
  have h1: "needsUpdate ?g" by (simp add: ex_simps)
  have h2: "cached ?g" by (simp add: cached_def ex_simps)
  have h3: "set (objects ?g) \<subseteq> set (translationPoints ?g)" by (simp add: ex_simps)
  have h4: "changed_members env0 ?g ?b = [''A'']"
    by (simp add: changed_members_def is_changed_env0 ex_simps)
  have h5: "\<not> (''A'' \<in> set (rotationPoints ?g) \<and> rotationCenter ?g \<noteq> CenterNull)"
    by (simp add: ex_simps)
  have h6: "\<not> (''A'' \<in> set (scalePoints ?g) \<and> scaleCenter ?g \<noteq> CenterNull)"
    by (simp add: ex_simps)
  have h7: "map_of (coords ?g) ''A'' = Some (1, 0, 0)" by (simp add: ex_simps)
  from translation_of_single_move [OF h1 h2 h3 h4 h5 h6 h7 refl refl]
  obtain g1 b1 where
    up: "update env0 ?g ?b
           = Inr (update_finish env0 \<lparr>action = Translation, drag_id = ''A'', changed = [''A'']\<rparr> (g1, b1))"
    and keep: "points b1 ''A'' = points ?b ''A''"
    and shift: "\<forall>m \<in> set (objects ?g). m \<noteq> ''A'' \<longrightarrow> m \<in> boardObjects ?b \<longrightarrow>
              (\<exists>c. map_of (coords ?g) m = Some c
                 \<and> usrCoords (points b1 m)
                     = (1, usr1 c + (usr1 (usrCoords (points ?b  ''A'')) - usr1 (1, 0, 0)),
                           usr2 c + (usr2 (usrCoords (points ?b  ''A'')) - usr2 (1, 0, 0))))"
    by blast
  from shift have "usrCoords (points b1 ''B'') = (1, 5, 1)"
     "usrCoords (points b1 ''C'') = (1, 5, 3)" "usrCoords (points b1 ''D'') = (1, 3, 3)"
    by (simp_all add: ex_simps)
  moreover from keep have "usrCoords (points b1 ''A'') = (1, 3, 1)" by (simp add: ex_simps)
  ultimately show ?thesis using h4 up by (simp add: update_finish_env0)
qed

text \<open>
  C1, as stated, fails. All four points of the square are in \<open>translationPoints\<close>; A
  is a rotation point as well, and the rotation centre is \<open>'centroid'\<close>, as it is from
  the start. A alone is dragged from \<open>(0, 0)\<close> to \<open>(2, 2)\<close>, a half turn about the
  centroid \<open>(1, 1)\<close>. The classifier resolves a rotation, and B, whose snapshot is
  \<open>(2, 0)\<close>, ends at \<open>(0, 2)\<close> and not at its snapshot plus \<open>(2, 2)\<close>.
\<close>

theorem rotation_point_is_not_translated:
  "objects (fst (dirty (move ''A'' (2, 2) square_roles))) = [''A'', ''B'', ''C'', ''D'']
   \<and> translationPoints (fst (dirty (move ''A'' (2, 2) square_roles)))
       = [''A'', ''B'', ''C'', ''D'']
   \<and> changed_members env_half_turn (fst (dirty (move ''A'' (2, 2) square_roles)))
       (snd (dirty (move ''A'' (2, 2) square_roles))) = [''A'']
   \<and> map_of (coords (fst (dirty (move ''A'' (2, 2) square_roles)))) ''A'' = Some (1, 0, 0)
   \<and> usrCoords (points (snd (dirty (move ''A'' (2, 2) square_roles))) ''A'') = (1, 2, 2)
   \<and> map_of (coords (fst (dirty (move ''A'' (2, 2) square_roles)))) ''B'' = Some (1, 2, 0)
   \<and> update_find_drag_type env_half_turn (fst (dirty (move ''A'' (2, 2) square_roles)))
       (snd (dirty (move ''A'' (2, 2) square_roles)))
       = Inr \<lparr>action = Rotation, drag_id = ''A'', changed = [''A'']\<rparr>
   \<and> coords_after (update env_half_turn (fst (dirty (move ''A'' (2, 2) square_roles)))
       (snd (dirty (move ''A'' (2, 2) square_roles)))) ''B'' = Some (1, 0, 2)"
proof -
  let ?E = env_half_turn
  let ?g = "fst (dirty (move ''A'' (2, 2) square_roles))"
  let ?b = "snd (dirty (move ''A'' (2, 2) square_roles))"
  let ?d = "\<lparr>action = Rotation, drag_id = ''A'', changed = [''A'']\<rparr>"
  let ?M = "((1, 0, 0), (2, - 1, 0), (2, 0, - 1)) :: mat3"
  have eps: "Mat_eps ?E = 1 / 1000000" by (simp add: env_half_turn_def env0_def)
  have o: "objects ?g = [''A'', ''B'', ''C'', ''D'']"
    "translationPoints ?g = [''A'', ''B'', ''C'', ''D'']"
    "map_of (coords ?g) ''A'' = Some (1, 0, 0)" "map_of (coords ?g) ''B'' = Some (1, 2, 0)"
    "usrCoords (points ?b ''A'') = (1, 2, 2)"
    by (simp_all add: ex_simps role_simps)
  have n: "needsUpdate ?g" by (simp add: ex_simps)
  have c: "cached ?g" by (simp add: cached_def ex_simps role_simps)
  have di: "distinct (objects ?g)" by (simp add: ex_simps role_simps)
  have m: "changed_members ?E ?g ?b = [''A'']"
    by (simp add: changed_members_def is_changed_eps [OF eps] ex_simps role_simps)
  have a: "find_action ?g ''A'' = Rotation"
    by (simp add: find_action_def exists_center_def ex_simps role_simps)
  have cls: "update_find_drag_type ?E ?g ?b = Inr ?d"
    using classify_single [OF c m] a by simp
  have act: "action ?d = Rotation \<or> action ?d = Scaling" by simp
  have cen: "update_centroid_center ?g = (1, 1)"
    unfolding centroid_mean by (simp add: ex_simps role_simps)
  have rc: "rotationCenter ?g = CenterCentroid" by (simp add: ex_simps role_simps)
  have res: "resolve_center ?g ?b (actionCenter ?g Rotation) = Some (1, 1)"
    by (simp add: actionCenter_def resolve_center_def rc cen)
  have tr: "update_transformation ?E ?g ?b ?d = Inr (Some (TMat ?M))"
    by (simp add: update_transformation_def res o rotate_matrix_def env_half_turn_def env0_def
        usr_simps)
  have "drag_id ?d \<in> fst ` set (coords ?g)" by (simp add: ex_simps role_simps)
  from apply_loop_matrix_total
    [OF act this, where M = ?M and els = "objects ?g" and b = ?b and E = ?E]
  obtain g1 b1 where ap: "apply_loop ?E ?d (TMat ?M) (objects ?g) (?g, ?b) = Inr (g1, b1)"
    by auto
  then have ap': "update_apply_transformation ?E ?d (TMat ?M) ?g ?b = Inr (g1, b1)"
    by (simp add: update_apply_transformation_def)
  have up: "update ?E ?g ?b = Inr (update_finish ?E ?d (g1, b1))"
    using update_applied [OF n cls _ tr ap'] by simp
  have "points b1 ''B'' = applyOnce ?E ?M (points ?b ''B'')"
    by (rule apply_loop_matrix_other [OF act di ap]) (simp_all add: ex_simps role_simps)
  then have bb: "usrCoords (points b1 ''B'') = (1, 0, 2)"
    by (simp add: env_half_turn_def env0_def applyOnce_matrix_coords matVecMult_def
        ex_simps role_simps)
  have fin: "snd (update_finish ?E ?d (g1, b1)) = b1"
    by (simp add: update_finish_def env_half_turn_def env0_def)
  from o m cls bb up fin show ?thesis by (simp add: coords_after_def)
qed

text \<open>
  C7. When more than one member has moved, the classifier resolves a translation whose
  drag source is the first moved member in the iteration order of the members; the
  applier leaves every moved member as it is and puts every other member that is on
  the board at its snapshot plus the delta of the drag source.
\<close>

theorem translation_of_several_moves:
  assumes dirty: "needsUpdate g" and cached: "cached g"
    and more: "changed_members E g b = p # q # rest"
    and snap: "map_of (coords g) p = Some sp"
    and dx: "dx = usr1 (usrCoords (points b p)) - usr1 sp"
    and dy: "dy = usr2 (usrCoords (points b p)) - usr2 sp"
  shows "update_find_drag_type E g b
           = Inr \<lparr>action = Translation, drag_id = p, changed = p # q # rest\<rparr>
         \<and> (\<exists>pre post. objects g = pre @ p # post \<and> (\<forall>x \<in> set pre. \<not> is_changed E g b x))
         \<and> (\<exists>g1 b1.
               update_apply_transformation E
                   \<lparr>action = Translation, drag_id = p, changed = p # q # rest\<rparr>
                   (TVec (dx, dy)) g b = Inr (g1, b1)
             \<and> update E g b
                 = Inr (update_finish E
                     \<lparr>action = Translation, drag_id = p, changed = p # q # rest\<rparr> (g1, b1))
             \<and> (\<forall>m \<in> set (p # q # rest). points b1 m = points b m)
             \<and> (\<forall>m \<in> set (objects g). m \<notin> set (p # q # rest) \<longrightarrow> m \<in> boardObjects b \<longrightarrow>
                  (\<exists>c. map_of (coords g) m = Some c
                     \<and> usrCoords (points b1 m) = (1, usr1 c + dx, usr2 c + dy))))"
proof -
  let ?d = "\<lparr>action = Translation, drag_id = p, changed = p # q # rest\<rparr>"
  have cls: "update_find_drag_type E g b = Inr ?d"
    by (simp add: update_find_drag_type_def find_changed_cached [OF cached] more)
  have first: "\<exists>pre post. objects g = pre @ p # post \<and> (\<forall>x \<in> set pre. \<not> is_changed E g b x)"
    using more unfolding changed_members_def
    by (metis filter_eq_Cons_iff)
  have tr: "update_transformation E g b ?d = Inr (Some (TVec (dx, dy)))"
    by (simp add: update_transformation_def snap dx dy)
  from cached have "set (objects g) \<subseteq> fst ` set (coords g)" by (simp add: cached_def)
  from apply_loop_translation_total
    [where d = ?d and els = "objects g" and g = g and v = "(dx, dy)" and b = b and E = E, OF _ this]
  obtain g1 b1 where
    ap: "apply_loop E ?d (TVec (dx, dy)) (objects g) (g, b) = Inr (g1, b1)" by auto
  then have ap': "update_apply_transformation E ?d (TVec (dx, dy)) g b = Inr (g1, b1)"
    by (simp add: update_apply_transformation_def)
  have up: "update E g b = Inr (update_finish E ?d (g1, b1))"
    using update_applied [OF dirty cls _ tr ap'] by simp
  have keep: "\<forall>m \<in> set (p # q # rest). points b1 m = points b m"
    using apply_loop_translation_skip [OF _ ap] by simp
  have shift: "\<exists>c. map_of (coords g) m = Some c
                 \<and> usrCoords (points b1 m) = (1, usr1 c + dx, usr2 c + dy)"
    if m: "m \<in> set (objects g)" "m \<notin> set (p # q # rest)" "m \<in> boardObjects b" for m
  proof -
    from map_of_cached [OF cached m(1)] obtain c where c: "map_of (coords g) m = Some c" ..
    from apply_loop_translation_shift [OF _ ap m(1) m(3) _ _ c] m(2)
    show ?thesis using c by simp
  qed
  from cls first ap' up keep shift show ?thesis by blast
qed

theorem translation_of_several_moves_witness:
  "changed_members env0 (fst (dirty (move ''B'' (2, 5) (move ''A'' (3, 1) square))))
       (snd (dirty (move ''B'' (2, 5) (move ''A'' (3, 1) square)))) = [''A'', ''B'']
   \<and> update_find_drag_type env0 (fst (dirty (move ''B'' (2, 5) (move ''A'' (3, 1) square))))
       (snd (dirty (move ''B'' (2, 5) (move ''A'' (3, 1) square))))
      = Inr \<lparr>action = Translation, drag_id = ''A'', changed = [''A'', ''B'']\<rparr>
   \<and> map (\<lambda>m. usrCoords (points
         (snd (projr (update env0 (fst (dirty (move ''B'' (2, 5) (move ''A'' (3, 1) square))))
                        (snd (dirty (move ''B'' (2, 5) (move ''A'' (3, 1) square))))))) m))
        [''A'', ''B'', ''C'', ''D'']
      = [(1, 3, 1), (1, 2, 5), (1, 5, 3), (1, 3, 3)]"
proof -
  let ?g = "fst (dirty (move ''B'' (2, 5) (move ''A'' (3, 1) square)))"
  let ?b = "snd (dirty (move ''B'' (2, 5) (move ''A'' (3, 1) square)))"
  have h1: "needsUpdate ?g" by (simp add: ex_simps)
  have h2: "cached ?g" by (simp add: cached_def ex_simps)
  have h3: "changed_members env0 ?g ?b = [''A'', ''B'']"
    by (simp add: changed_members_def is_changed_env0 ex_simps)
  have h4: "map_of (coords ?g) ''A'' = Some (1, 0, 0)" by (simp add: ex_simps)
  from translation_of_several_moves [OF h1 h2 h3 h4 refl refl]
  obtain g1 b1 where
    cls: "update_find_drag_type env0 ?g ?b
           = Inr \<lparr>action = Translation, drag_id = ''A'', changed = [''A'', ''B'']\<rparr>"
    and up: "update env0 ?g ?b
           = Inr (update_finish env0
                \<lparr>action = Translation, drag_id = ''A'', changed = [''A'', ''B'']\<rparr> (g1, b1))"
    and keep: "\<forall>m \<in> set [''A'', ''B'']. points b1 m = points ?b m"
    and shift: "\<forall>m \<in> set (objects ?g). m \<notin> set [''A'', ''B''] \<longrightarrow> m \<in> boardObjects ?b \<longrightarrow>
              (\<exists>c. map_of (coords ?g) m = Some c
                 \<and> usrCoords (points b1 m)
                     = (1, usr1 c + (usr1 (usrCoords (points ?b  ''A'')) - usr1 (1, 0, 0)),
                           usr2 c + (usr2 (usrCoords (points ?b  ''A'')) - usr2 (1, 0, 0))))"
    by blast
  from shift have "usrCoords (points b1 ''C'') = (1, 5, 3)" "usrCoords (points b1 ''D'') = (1, 3, 3)"
    by (simp_all add: ex_simps)
  moreover from keep have "usrCoords (points b1 ''A'') = (1, 3, 1)"
     "usrCoords (points b1 ''B'') = (1, 2, 5)" by (simp_all add: ex_simps)
  ultimately show ?thesis using h3 cls up by (simp add: update_finish_env0)
qed

section \<open>The returns before the applier\<close>

text \<open>
  C4, as amended. When the action is a rotation or a scaling and the centre of that
  action is not a point, \<open>'centroid'\<close>, an array or a function, \<open>update\<close> returns with
  the group and the board as they were: no coordinate is changed, and the flag
  \<open>needsUpdate\<close> is not cleared, it stays set.
\<close>

theorem unsupported_center_returns:
  assumes "needsUpdate g" and "update_find_drag_type E g b = Inr d"
    and "action d = Rotation \<or> action d = Scaling"
    and "\<not> supported (actionCenter g (action d))"
  shows "update E g b = Inr (g, b)"
  using assms
  by (auto simp: update_def update_transformation_def resolve_center_unsupported)

theorem unsupported_center_returns_witness:
  "update_find_drag_type env0 (fst (dirty (move ''A'' (3, 1) square_unsupported)))
      (snd (dirty (move ''A'' (3, 1) square_unsupported)))
     = Inr \<lparr>action = Rotation, drag_id = ''A'', changed = [''A'']\<rparr>
   \<and> rotationCenter (fst (dirty (move ''A'' (3, 1) square_unsupported))) = CenterOther
   \<and> update env0 (fst (dirty (move ''A'' (3, 1) square_unsupported)))
      (snd (dirty (move ''A'' (3, 1) square_unsupported)))
     = Inr (dirty (move ''A'' (3, 1) square_unsupported))"
proof -
  let ?g = "fst (dirty (move ''A'' (3, 1) square_unsupported))"
  let ?b = "snd (dirty (move ''A'' (3, 1) square_unsupported))"
  let ?d = "\<lparr>action = Rotation, drag_id = ''A'', changed = [''A'']\<rparr>"
  have c: "cached ?g" by (simp add: cached_def ex_simps role_simps)
  have m: "changed_members env0 ?g ?b = [''A'']"
    by (simp add: changed_members_def is_changed_env0 ex_simps role_simps)
  have a: "find_action ?g ''A'' = Rotation"
    by (simp add: find_action_def exists_center_def ex_simps role_simps)
  have n: "needsUpdate ?g" by (simp add: ex_simps)
  have cls: "update_find_drag_type env0 ?g ?b = Inr ?d"
    using classify_single [OF c m] a by simp
  have rc: "rotationCenter ?g = CenterOther" by (simp add: ex_simps role_simps)
  then have u: "\<not> supported (actionCenter ?g (action ?d))"
    by (simp add: actionCenter_def supported_def)
  have act: "action ?d = Rotation \<or> action ?d = Scaling" by simp
  from unsupported_center_returns [OF n cls act u] cls rc show ?thesis by simp
qed

text \<open>
  C4, as stated, fails: after the return on an unsupported centre the flag is still
  set. A is a rotation point, the rotation centre is a number, and A is dragged.
\<close>

theorem unsupported_center_keeps_flag:
  "update env0 (fst (dirty (move ''A'' (3, 1) square_unsupported)))
      (snd (dirty (move ''A'' (3, 1) square_unsupported)))
     = Inr (dirty (move ''A'' (3, 1) square_unsupported))
   \<and> needsUpdate (fst (dirty (move ''A'' (3, 1) square_unsupported))) = True"
proof -
  let ?g = "fst (dirty (move ''A'' (3, 1) square_unsupported))"
  let ?b = "snd (dirty (move ''A'' (3, 1) square_unsupported))"
  have c: "cached ?g" by (simp add: cached_def ex_simps role_simps)
  have m: "changed_members env0 ?g ?b = [''A'']"
    by (simp add: changed_members_def is_changed_env0 ex_simps role_simps)
  have a: "find_action ?g ''A'' = Rotation"
    by (simp add: find_action_def exists_center_def ex_simps role_simps)
  have n: "needsUpdate ?g" by (simp add: ex_simps)
  have r: "resolve_center ?g ?b (rotationCenter ?g) = None"
    by (simp add: resolve_center_def ex_simps role_simps)
  from classify_single [OF c m] a n r have "update env0 ?g ?b = Inr (?g, ?b)"
    by (simp add: update_def update_transformation_def actionCenter_def)
  with n show ?thesis by simp
qed

text \<open>
  C5. For a scaling whose drag source has its snapshot within \<open>Mat.eps\<close> of the scale
  centre, \<open>update\<close> returns normally with the group and the board as they were.
\<close>

theorem degenerate_scaling_returns:
  assumes "update_find_drag_type E g b = Inr d" and "action d = Scaling"
    and "resolve_center g b (scaleCenter g) = Some cen"
    and "map_of (coords g) (drag_id d) = Some snap"
    and "Geometry_distance (slice1 snap) cen < Mat_eps E"
  shows "update E g b = Inr (g, b)"
  using assms Geometry_distance_small [of "slice1 snap" cen "Mat_eps E"]
  by (simp add: update_def update_transformation_def actionCenter_def build_scaling_def Let_def)

theorem degenerate_scaling_returns_witness:
  "update_find_drag_type env0 (fst (dirty (move ''A'' (3, 1) square_scale_A)))
      (snd (dirty (move ''A'' (3, 1) square_scale_A)))
     = Inr \<lparr>action = Scaling, drag_id = ''A'', changed = [''A'']\<rparr>
   \<and> Geometry_distance (0, 0) (0, 0) < Mat_eps env0
   \<and> update env0 (fst (dirty (move ''A'' (3, 1) square_scale_A)))
      (snd (dirty (move ''A'' (3, 1) square_scale_A)))
     = Inr (dirty (move ''A'' (3, 1) square_scale_A))"
proof -
  let ?g = "fst (dirty (move ''A'' (3, 1) square_scale_A))"
  let ?b = "snd (dirty (move ''A'' (3, 1) square_scale_A))"
  let ?d = "\<lparr>action = Scaling, drag_id = ''A'', changed = [''A'']\<rparr>"
  have c: "cached ?g" by (simp add: cached_def ex_simps role_simps)
  have m: "changed_members env0 ?g ?b = [''A'']"
    by (simp add: changed_members_def is_changed_env0 ex_simps role_simps)
  have a: "find_action ?g ''A'' = Scaling"
    by (simp add: find_action_def exists_center_def ex_simps role_simps)
  have cls: "update_find_drag_type env0 ?g ?b = Inr ?d"
    using classify_single [OF c m] a by simp
  have act: "action ?d = Scaling" by simp
  have cen: "resolve_center ?g ?b (scaleCenter ?g) = Some (0, 0)"
    by (simp add: resolve_center_def ex_simps role_simps)
  have sn: "map_of (coords ?g) (drag_id ?d) = Some (1, 0, 0)"
    by (simp add: ex_simps role_simps)
  have small: "Geometry_distance (slice1 (1, 0, 0)) (0, 0) < Mat_eps env0"
    by (simp add: Geometry_distance_axis usr_simps env0_def)
  from degenerate_scaling_returns [OF cls act cen sn small] cls small show ?thesis
    by (simp add: usr_simps)
qed

section \<open>The flag and the propagation\<close>

text \<open>
  C8. In a cycle that applies a transformation, \<open>board.updateElements\<close> receives the
  group with \<open>needsUpdate\<close> already cleared, and a call of \<open>update\<close> on that group,
  whatever the board has become by then, returns at the entry guard and changes
  nothing.
\<close>

theorem flag_cleared_before_propagation:
  assumes "needsUpdate g" and "update_find_drag_type E g b = Inr d" and "action d \<noteq> Nothing"
    and "update_transformation E g b d = Inr (Some t)"
    and "update_apply_transformation E d t g b = Inr (g1, b1)"
  shows "update E g b
           = Inr (case updateElements E d (g1\<lparr>needsUpdate := False\<rparr>, b1) of
                    (g2, b2) \<Rightarrow> (cache_loop (objects g2) g2 b2, b2))
         \<and> \<not> needsUpdate (g1\<lparr>needsUpdate := False\<rparr>)
         \<and> update E' (g1\<lparr>needsUpdate := False\<rparr>) b' = Inr (g1\<lparr>needsUpdate := False\<rparr>, b')"
  using update_applied [OF assms]
  by (simp add: update_finish_def not_needsUpdate)

theorem flag_cleared_before_propagation_witness:
  "update (reentrant env0) (fst (dirty (move ''A'' (3, 1) square)))
        (snd (dirty (move ''A'' (3, 1) square)))
     = update env0 (fst (dirty (move ''A'' (3, 1) square)))
        (snd (dirty (move ''A'' (3, 1) square)))
   \<and> (\<exists>s. update env0 (fst (dirty (move ''A'' (3, 1) square)))
        (snd (dirty (move ''A'' (3, 1) square))) = Inr s)"
proof -
  let ?g = "fst (dirty (move ''A'' (3, 1) square))"
  let ?b = "snd (dirty (move ''A'' (3, 1) square))"
  let ?d = "\<lparr>action = Translation, drag_id = ''A'', changed = [''A'']\<rparr>"
  let ?R = "reentrant env0"
  have eps: "Mat_eps ?R = 1 / 1000000" "Mat_eps env0 = 1 / 1000000"
    by (simp_all add: reentrant_def env0_def)
  have n: "needsUpdate ?g" by (simp add: ex_simps)
  have c: "cached ?g" by (simp add: cached_def ex_simps)
  have m: "changed_members E ?g ?b = [''A'']" if "Mat_eps E = 1 / 1000000" for E
    by (simp add: changed_members_def is_changed_eps [OF that] ex_simps)
  have a: "find_action ?g ''A'' = Translation"
    by (simp add: find_action_def exists_center_def ex_simps)
  have cls: "update_find_drag_type E ?g ?b = Inr ?d" if "Mat_eps E = 1 / 1000000" for E
    using classify_single [OF c m [OF that]] a by simp
  have nn: "action ?d \<noteq> Nothing" by simp
  have tr: "update_transformation E ?g ?b ?d = Inr (Some (TVec (3, 1)))" for E
    by (simp add: update_transformation_def ex_simps)
  from c have "set (objects ?g) \<subseteq> fst ` set (coords ?g)" by (simp only: cached_def)
  from apply_loop_translation_total
    [where d = ?d and els = "objects ?g" and g = ?g and v = "(3, 1)" and b = ?b and E = ?R,
      OF _ this]
  obtain g1 b1 where ap: "update_apply_transformation ?R ?d (TVec (3, 1)) ?g ?b = Inr (g1, b1)"
    by (auto simp: update_apply_transformation_def)
  have "applyOnce ?R = applyOnce env0" by (simp add: reentrant_def)
  from apply_loop_same_applyOnce [OF this] ap
  have ap0: "update_apply_transformation env0 ?d (TVec (3, 1)) ?g ?b = Inr (g1, b1)"
    by (simp add: update_apply_transformation_def)
  from flag_cleared_before_propagation [OF n cls [OF eps(1)] nn tr ap, of env0 b1]
  have r: "update ?R ?g ?b
           = Inr (case updateElements ?R ?d (g1\<lparr>needsUpdate := False\<rparr>, b1) of
                    (g2, b2) \<Rightarrow> (cache_loop (objects g2) g2 b2, b2))"
    and again: "update env0 (g1\<lparr>needsUpdate := False\<rparr>) b1 = Inr (g1\<lparr>needsUpdate := False\<rparr>, b1)"
    by simp_all
  from again have "updateElements ?R ?d (g1\<lparr>needsUpdate := False\<rparr>, b1)
                     = (g1\<lparr>needsUpdate := False\<rparr>, b1)"
    by (simp add: reentrant_def)
  with r have r': "update ?R ?g ?b
           = Inr (cache_loop (objects g1) (g1\<lparr>needsUpdate := False\<rparr>) b1, b1)" by simp
  from update_applied [OF n cls [OF eps(2)] nn tr ap0]
  have "update env0 ?g ?b = Inr (cache_loop (objects g1) (g1\<lparr>needsUpdate := False\<rparr>) b1, b1)"
    by (simp add: update_finish_env0)
  with r' show ?thesis by simp
qed

section \<open>Rotation and scaling\<close>

lemma scale_B_matrix:
  "update_transformation env0 (fst (dirty (move ''B'' (4, 0) s))) (snd (dirty (move ''B'' (4, 0) s)))
       \<lparr>action = Scaling, drag_id = ''B'', changed = [''B'']\<rparr>
     = Inr (Some (TMat ((1, 0, 0), (0, 2, 0), (0, 0, 2))))"
  if "fst s = fst square_scale_B" for s
  using that
  by (simp add: update_transformation_def actionCenter_def resolve_center_def build_scaling_def
      scale_factor_def generic_matrix_def Geometry_distance_axis env0_def ex_simps role_simps)

text \<open>
  C6, as amended. Under a rotation or a scaling with the matrix \<open>M\<close>, the drag source
  is set to \<open>M\<close> times its snapshot. Every other member on the board is handed to
  \<open>applyOnce\<close> once, as it stood at the start of the call; with \<open>applyOnce\<close> multiplying
  the coordinates of the point by the matrix, the member is set to \<open>M\<close> times its own
  coordinates at the start of the call. These coordinates lie within \<open>Mat.eps\<close> of the
  snapshot of the member, and where they are the snapshot the member is set to \<open>M\<close>
  times its snapshot.
\<close>

theorem matrix_applied_to_members:
  assumes dirty: "needsUpdate g" and cached: "cached g" and dist: "distinct (objects g)"
    and cls: "update_find_drag_type E g b = Inr d"
    and act: "action d = Rotation \<or> action d = Scaling"
    and tr: "update_transformation E g b d = Inr (Some (TMat M))"
  shows "\<exists>g1 b1.
           update_apply_transformation E d (TMat M) g b = Inr (g1, b1)
         \<and> update E g b = Inr (update_finish E d (g1, b1))
         \<and> (\<exists>c. map_of (coords g) (drag_id d) = Some c
               \<and> (drag_id d \<in> boardObjects b \<longrightarrow> usrCoords (points b1 (drag_id d)) = matVecMult M c))
         \<and> (\<forall>m \<in> set (objects g). m \<noteq> drag_id d \<longrightarrow> m \<in> boardObjects b \<longrightarrow>
               points b1 m = applyOnce E M (points b m)
               \<and> (applyOnce E = applyOnce_matrix \<longrightarrow>
                    usrCoords (points b1 m) = matVecMult M (usrCoords (points b m)))
               \<and> (\<exists>c. map_of (coords g) m = Some c
                     \<and> Coords_distance (usrCoords (points b m)) c \<le> Mat_eps E
                     \<and> (applyOnce E = applyOnce_matrix \<longrightarrow> usrCoords (points b m) = c \<longrightarrow>
                          usrCoords (points b1 m) = matVecMult M c)))"
proof -
  from act have nn: "action d \<noteq> Nothing" "action d \<noteq> Translation" by auto
  from find_drag_type_cached [OF cached cls nn(1)] nn(2)
  have ch: "changed_members E g b = [drag_id d]" by metis
  then have dm: "drag_id d \<in> set (objects g)"
    using changed_members_member [of "drag_id d" E g b] by simp
  from map_of_cached [OF cached dm] obtain c where c: "map_of (coords g) (drag_id d) = Some c" ..
  then have "drag_id d \<in> fst ` set (coords g)"
    by (metis map_of_eq_None_iff option.distinct(1))
  from apply_loop_matrix_total [OF act this, where M = M and els = "objects g" and b = b and E = E]
  obtain g1 b1 where ap: "apply_loop E d (TMat M) (objects g) (g, b) = Inr (g1, b1)" by auto
  then have ap': "update_apply_transformation E d (TMat M) g b = Inr (g1, b1)"
    by (simp add: update_apply_transformation_def)
  have up: "update E g b = Inr (update_finish E d (g1, b1))"
    using update_applied [OF dirty cls nn(1) tr ap'] .
  have src: "drag_id d \<in> boardObjects b \<longrightarrow> usrCoords (points b1 (drag_id d)) = matVecMult M c"
    using apply_loop_matrix_source [OF act dist ap dm _ refl c] by simp
  have oth: "points b1 m = applyOnce E M (points b m)
               \<and> (applyOnce E = applyOnce_matrix \<longrightarrow>
                    usrCoords (points b1 m) = matVecMult M (usrCoords (points b m)))
               \<and> (\<exists>c. map_of (coords g) m = Some c
                     \<and> Coords_distance (usrCoords (points b m)) c \<le> Mat_eps E
                     \<and> (applyOnce E = applyOnce_matrix \<longrightarrow> usrCoords (points b m) = c \<longrightarrow>
                          usrCoords (points b1 m) = matVecMult M c))"
    if m: "m \<in> set (objects g)" "m \<noteq> drag_id d" "m \<in> boardObjects b" for m
  proof -
    from map_of_cached [OF cached m(1)] obtain cm where cm: "map_of (coords g) m = Some cm" ..
    have "is_changed E g b m \<Longrightarrow> m \<in> set (changed_members E g b)"
      using m(1) by (simp add: changed_members_def)
    with ch m(2) have "\<not> is_changed E g b m" by auto
    with cm have "Coords_distance (usrCoords (points b m)) cm \<le> Mat_eps E"
      by (simp add: is_changed_def)
    with apply_loop_matrix_other [OF act dist ap m(1) m(3) m(2)] cm show ?thesis
      by (simp add: applyOnce_matrix_coords)
  qed
  from ap' up c src oth show ?thesis by blast
qed

theorem matrix_applied_to_members_witness:
  "update_transformation env0 (fst (dirty (move ''B'' (4, 0) square_scale_B)))
       (snd (dirty (move ''B'' (4, 0) square_scale_B)))
       \<lparr>action = Scaling, drag_id = ''B'', changed = [''B'']\<rparr>
     = Inr (Some (TMat ((1, 0, 0), (0, 2, 0), (0, 0, 2))))
   \<and> map (coords_after (update env0 (fst (dirty (move ''B'' (4, 0) square_scale_B)))
                (snd (dirty (move ''B'' (4, 0) square_scale_B)))))
        [''A'', ''B'', ''C'', ''D'']
      = [Some (1, 0, 0), Some (1, 4, 0), Some (1, 4, 4), Some (1, 0, 4)]"
proof -
  let ?g = "fst (dirty (move ''B'' (4, 0) square_scale_B))"
  let ?b = "snd (dirty (move ''B'' (4, 0) square_scale_B))"
  let ?d = "\<lparr>action = Scaling, drag_id = ''B'', changed = [''B'']\<rparr>"
  let ?M = "((1, 0, 0), (0, 2, 0), (0, 0, 2)) :: mat3"
  have n: "needsUpdate ?g" by (simp add: ex_simps)
  have c: "cached ?g" by (simp add: cached_def ex_simps role_simps)
  have di: "distinct (objects ?g)" by (simp add: ex_simps role_simps)
  have m: "changed_members env0 ?g ?b = [''B'']"
    by (simp add: changed_members_def is_changed_env0 ex_simps role_simps)
  have a: "find_action ?g ''B'' = Scaling"
    by (simp add: find_action_def exists_center_def ex_simps role_simps)
  have cls: "update_find_drag_type env0 ?g ?b = Inr ?d"
    using classify_single [OF c m] a by simp
  have act: "action ?d = Rotation \<or> action ?d = Scaling" by simp
  have tr: "update_transformation env0 ?g ?b ?d = Inr (Some (TMat ?M))"
    by (rule scale_B_matrix) simp
  from matrix_applied_to_members [OF n c di cls act tr]
  obtain g1 b1 c0 where
    up: "update env0 ?g ?b = Inr (update_finish env0 ?d (g1, b1))"
    and sn: "map_of (coords ?g) (drag_id ?d) = Some c0"
    and src: "drag_id ?d \<in> boardObjects ?b \<longrightarrow> usrCoords (points b1 (drag_id ?d)) = matVecMult ?M c0"
    and oth: "\<forall>m \<in> set (objects ?g). m \<noteq> drag_id ?d \<longrightarrow> m \<in> boardObjects ?b \<longrightarrow>
               (applyOnce env0 = applyOnce_matrix \<longrightarrow>
                  usrCoords (points b1 m) = matVecMult ?M (usrCoords (points ?b m)))"
    by blast
  from sn have "c0 = (1, 2, 0)" by (simp add: ex_simps role_simps)
  with src have "usrCoords (points b1 ''B'') = (1, 4, 0)"
    by (simp add: matVecMult_def ex_simps role_simps)
  moreover from oth have "usrCoords (points b1 ''A'') = (1, 0, 0)"
    "usrCoords (points b1 ''C'') = (1, 4, 4)" "usrCoords (points b1 ''D'') = (1, 0, 4)"
    by (simp_all add: env0_def matVecMult_def ex_simps role_simps)
  ultimately show ?thesis using tr up
    by (simp add: update_finish_env0 coords_after_def)
qed

text \<open>
  C6, as stated, fails. B is a scale point with the centre \<open>[0, 0]\<close>; D has drifted
  by less than \<open>Mat.eps\<close> from its snapshot \<open>(0, 2)\<close>, and B is dragged from \<open>(2, 0)\<close>
  to \<open>(4, 0)\<close>. Only B counts as moved, the matrix doubles both coordinates, and D ends
  at the double of its drifted coordinates, not at the double \<open>(0, 4)\<close> of its snapshot.
\<close>

theorem matrix_applied_to_live_coordinates:
  "changed_members env0
       (fst (dirty (move ''B'' (4, 0) (move ''D'' (0, 2 + 1 / 10000000) square_scale_B))))
       (snd (dirty (move ''B'' (4, 0) (move ''D'' (0, 2 + 1 / 10000000) square_scale_B))))
     = [''B'']
   \<and> update_transformation env0
       (fst (dirty (move ''B'' (4, 0) (move ''D'' (0, 2 + 1 / 10000000) square_scale_B))))
       (snd (dirty (move ''B'' (4, 0) (move ''D'' (0, 2 + 1 / 10000000) square_scale_B))))
       \<lparr>action = Scaling, drag_id = ''B'', changed = [''B'']\<rparr>
     = Inr (Some (TMat ((1, 0, 0), (0, 2, 0), (0, 0, 2))))
   \<and> map_of (coords (fst (dirty (move ''B'' (4, 0)
         (move ''D'' (0, 2 + 1 / 10000000) square_scale_B))))) ''D'' = Some (1, 0, 2)
   \<and> matVecMult ((1, 0, 0), (0, 2, 0), (0, 0, 2)) (1, 0, 2) = (1, 0, 4)
   \<and> coords_after (update env0
       (fst (dirty (move ''B'' (4, 0) (move ''D'' (0, 2 + 1 / 10000000) square_scale_B))))
       (snd (dirty (move ''B'' (4, 0) (move ''D'' (0, 2 + 1 / 10000000) square_scale_B)))))
       ''D'' = Some (1, 0, 4 + 1 / 5000000)"
proof -
  let ?s = "move ''D'' (0, 2 + 1 / 10000000) square_scale_B"
  let ?g = "fst (dirty (move ''B'' (4, 0) ?s))"
  let ?b = "snd (dirty (move ''B'' (4, 0) ?s))"
  let ?d = "\<lparr>action = Scaling, drag_id = ''B'', changed = [''B'']\<rparr>"
  let ?M = "((1, 0, 0), (0, 2, 0), (0, 0, 2)) :: mat3"
  have n: "needsUpdate ?g" by (simp add: ex_simps)
  have c: "cached ?g" by (simp add: cached_def ex_simps role_simps)
  have di: "distinct (objects ?g)" by (simp add: ex_simps role_simps)
  have m: "changed_members env0 ?g ?b = [''B'']"
    by (simp add: changed_members_def is_changed_env0 ex_simps role_simps)
  have a: "find_action ?g ''B'' = Scaling"
    by (simp add: find_action_def exists_center_def ex_simps role_simps)
  have cls: "update_find_drag_type env0 ?g ?b = Inr ?d"
    using classify_single [OF c m] a by simp
  have act: "action ?d = Rotation \<or> action ?d = Scaling" by simp
  have tr: "update_transformation env0 ?g ?b ?d = Inr (Some (TMat ?M))"
    by (rule scale_B_matrix) (simp add: move_def)
  have "drag_id ?d \<in> fst ` set (coords ?g)" by (simp add: ex_simps role_simps)
  from apply_loop_matrix_total
    [OF act this, where M = ?M and els = "objects ?g" and b = ?b and E = env0]
  obtain g1 b1 where ap: "apply_loop env0 ?d (TMat ?M) (objects ?g) (?g, ?b) = Inr (g1, b1)"
    by auto
  then have ap': "update_apply_transformation env0 ?d (TMat ?M) ?g ?b = Inr (g1, b1)"
    by (simp add: update_apply_transformation_def)
  have up: "update env0 ?g ?b = Inr (update_finish env0 ?d (g1, b1))"
    using update_applied [OF n cls _ tr ap'] by simp
  have "points b1 ''D'' = applyOnce env0 ?M (points ?b ''D'')"
    by (rule apply_loop_matrix_other [OF act di ap]) (simp_all add: ex_simps role_simps)
  then have d: "usrCoords (points b1 ''D'') = (1, 0, 4 + 1 / 5000000)"
    by (simp add: env0_def applyOnce_matrix_coords matVecMult_def ex_simps role_simps)
  have sn: "map_of (coords ?g) ''D'' = Some (1, 0, 2)" by (simp add: ex_simps role_simps)
  have mv: "matVecMult ?M (1, 0, 2) = (1, 0, 4)" by (simp add: matVecMult_def)
  from m tr sn mv d up show ?thesis
    by (simp add: update_finish_env0 coords_after_def)
qed

section \<open>Membership and the snapshot\<close>

lemma count_one:
  "distinct (map fst cs) \<Longrightarrow> m \<in> fst ` set cs \<Longrightarrow> length (filter (\<lambda>e. fst e = m) cs) = 1"
proof (induction cs)
  case Nil
  then show ?case by simp
next
  case (Cons e cs)
  show ?case
  proof (cases "fst e = m")
    case True
    with Cons.prems have "m \<notin> fst ` set cs" by auto
    then have "filter (\<lambda>e. fst e = m) cs = []" by (auto simp: filter_empty_conv)
    with True show ?thesis by simp
  next
    case False
    with Cons show ?thesis by auto
  qed
qed

lemma addPoint_group:
  "fst (addPoint p (g, b)) =
     (if p \<noteq> '''' then
        g\<lparr>objects := put_key p (objects g),
          coords := put_entry p (usrCoords (points b p)) (coords g),
          translationPoints := translationPoints g @ [p]\<rparr>
      else
        g\<lparr>objects := put_key p (objects g),
          translationPoints := translationPoints g @ [p]\<rparr>)"
  by (simp add: addPoint_def updateCoordsCache_def Let_def set_put_key)

lemma removePoint_group: "fst (removePoint p (g, b)) = g\<lparr>objects := removeAll p (objects g)\<rparr>"
  by (simp add: removePoint_def)

lemma addPoint_inv:
  "snapshot_inv g \<Longrightarrow> p \<noteq> '''' \<Longrightarrow> snapshot_inv (fst (addPoint p (g, b)))"
  by (auto simp: snapshot_inv_def cached_def addPoint_group distinct_put_entry keys_put_entry
      set_put_key)

lemma removePoint_inv: "snapshot_inv g \<Longrightarrow> snapshot_inv (fst (removePoint p (g, b)))"
  by (auto simp: snapshot_inv_def cached_def removePoint_group)

lemma run_ops_inv:
  "snapshot_inv (fst s) \<Longrightarrow> \<forall>p. AddPoint p \<in> set ops \<longrightarrow> p \<noteq> '''' \<Longrightarrow>
   snapshot_inv (fst (run_ops ops s))"
proof (induction ops arbitrary: s)
  case Nil
  then show ?case by simp
next
  case (Cons x ops)
  obtain g b where s: "s = (g, b)" by (cases s)
  show ?case
  proof (cases x)
    case (AddPoint p)
    with Cons.prems s have "snapshot_inv (fst (addPoint p s))"
      using addPoint_inv [of g p b] by simp
    with Cons.IH [of "addPoint p s"] Cons.prems(2) AddPoint show ?thesis by simp
  next
    case (RemovePoint p)
    with Cons.prems s have "snapshot_inv (fst (removePoint p s))"
      using removePoint_inv [of g p b] by simp
    with Cons.IH [of "removePoint p s"] Cons.prems(2) RemovePoint show ?thesis by simp
  qed
qed

text \<open>
  C9, as amended. After any sequence of \<open>addPoint\<close> and \<open>removePoint\<close> (on points
  whose id is not empty), every current member has exactly one snapshot entry.
  \<open>addPoint\<close> makes the point a member and sets its snapshot entry to its live
  coordinates; \<open>removePoint\<close> takes the point out of the members and leaves the
  snapshot as it is, so the entry of a removed member stays.
\<close>

theorem members_keep_one_snapshot:
  assumes "distinct (map fst (coords g))" and "cached g"
    and "\<forall>p. AddPoint p \<in> set ops \<longrightarrow> p \<noteq> ''''"
  shows "(\<forall>m \<in> set (objects (fst (run_ops ops (g, b)))).
            snapshot_count (fst (run_ops ops (g, b))) m = 1)
         \<and> (q \<noteq> '''' \<longrightarrow>
              q \<in> set (objects (fst (addPoint q (g, b))))
              \<and> map_of (coords (fst (addPoint q (g, b)))) q = Some (usrCoords (points b q)))
         \<and> q \<notin> set (objects (fst (removePoint q (g, b))))
         \<and> coords (fst (removePoint q (g, b))) = coords g"
proof -
  from assms(1,2) have "snapshot_inv (fst (g, b))" by (simp add: snapshot_inv_def)
  from run_ops_inv [OF this assms(3)]
  have inv: "snapshot_inv (fst (run_ops ops (g, b)))" .
  have one: "\<forall>m \<in> set (objects (fst (run_ops ops (g, b)))).
            snapshot_count (fst (run_ops ops (g, b))) m = 1"
  proof
    fix m
    assume "m \<in> set (objects (fst (run_ops ops (g, b))))"
    with inv have "m \<in> fst ` set (coords (fst (run_ops ops (g, b))))"
      by (auto simp: snapshot_inv_def cached_def)
    moreover from inv have "distinct (map fst (coords (fst (run_ops ops (g, b)))))"
      by (simp add: snapshot_inv_def)
    ultimately show "snapshot_count (fst (run_ops ops (g, b))) m = 1"
      unfolding snapshot_count_def by (rule count_one [rotated])
  qed
  have add: "q \<noteq> '''' \<longrightarrow>
              q \<in> set (objects (fst (addPoint q (g, b))))
              \<and> map_of (coords (fst (addPoint q (g, b)))) q = Some (usrCoords (points b q))"
    by (simp add: addPoint_group map_of_put_entry set_put_key)
  have rem: "q \<notin> set (objects (fst (removePoint q (g, b))))
         \<and> coords (fst (removePoint q (g, b))) = coords g"
    by (simp add: removePoint_group)
  from one add rem show ?thesis by blast
qed

theorem members_keep_one_snapshot_witness:
  "objects (fst (run_ops [AddPoint ''A'', AddPoint ''B'', RemovePoint ''A'', AddPoint ''B'']
       (new_group ''G'', square_board))) = [''B'']
   \<and> snapshot_count (fst (run_ops [AddPoint ''A'', AddPoint ''B'', RemovePoint ''A'', AddPoint ''B'']
       (new_group ''G'', square_board))) ''B'' = 1
   \<and> map_of (coords (fst (addPoint ''B'' (new_group ''G'', square_board)))) ''B'' = Some (1, 2, 0)
   \<and> coords (fst (removePoint ''B'' (new_group ''G'', square_board))) = []"
proof -
  let ?ops = "[AddPoint ''A'', AddPoint ''B'', RemovePoint ''A'', AddPoint ''B'']"
  have h1: "distinct (map fst (coords (new_group ''G'')))" by (simp add: new_group_def)
  have h2: "cached (new_group ''G'')" by (simp add: cached_def new_group_def)
  have h3: "\<forall>p. AddPoint p \<in> set ?ops \<longrightarrow> p \<noteq> ''''" by auto
  have o: "objects (fst (run_ops ?ops (new_group ''G'', square_board))) = [''B'']"
    by (simp add: addPoint_def removePoint_def updateCoordsCache_def new_group_def Let_def js_simps)
  from members_keep_one_snapshot [OF h1 h2 h3, of square_board "''B''"] o
  show ?thesis by (simp add: new_group_def square_board_def)
qed

text \<open>
  C9, as stated, fails: after \<open>addPoint(A)\<close> and \<open>removePoint(A)\<close> the group has no
  member and the snapshot still has the entry of A.
\<close>

theorem removed_member_keeps_snapshot:
  "objects (fst (run_ops [AddPoint ''A'', RemovePoint ''A''] (new_group ''G'', square_board))) = []
   \<and> snapshot_count
        (fst (run_ops [AddPoint ''A'', RemovePoint ''A''] (new_group ''G'', square_board))) ''A'' = 1"
  by (simp add: addPoint_def removePoint_def updateCoordsCache_def new_group_def Let_def js_simps
      snapshot_count_def)

lemma count_list_one: "distinct xs \<Longrightarrow> x \<in> set xs \<Longrightarrow> count_list xs x = 1"
  by (induction xs) auto

lemma addPoint_board:
  "snd (addPoint p (g, b)) =
     b\<lparr>points := (points b)(p := (points b p)\<lparr>groups := uniqueArray (groups (points b p) @ [gid g])\<rparr>)\<rparr>"
  by (simp add: addPoint_def Let_def)

text \<open>
  C10. \<open>addPoint\<close> of a point that is a member already (with an id that is not empty)
  leaves the members as they are, with one entry for the point, and leaves the point
  one snapshot entry, now its live coordinates; the group id is in the \<open>groups\<close> of
  the point once; and \<open>translationPoints\<close> gets one more reference to the point, as
  \<open>_addActionPoint\<close> pushes it, so the array holds the point once more than before.
\<close>

theorem addPoint_of_a_member:
  assumes "p \<in> set (objects g)" and "p \<noteq> ''''"
    and "distinct (objects g)" and "distinct (map fst (coords g))"
  shows "objects (fst (addPoint p (g, b))) = objects g
         \<and> count_list (objects (fst (addPoint p (g, b)))) p = 1
         \<and> snapshot_count (fst (addPoint p (g, b))) p = 1
         \<and> map_of (coords (fst (addPoint p (g, b)))) p = Some (usrCoords (points b p))
         \<and> translationPoints (fst (addPoint p (g, b))) = translationPoints g @ [p]
         \<and> translationPoints (fst (addPoint p (g, b)))
             = translationPoints (addActionPoint TranslationRole p g)
         \<and> count_list (translationPoints (fst (addPoint p (g, b)))) p
             = Suc (count_list (translationPoints g) p)
         \<and> distinct (groups (points (snd (addPoint p (g, b))) p))
         \<and> gid g \<in> set (groups (points (snd (addPoint p (g, b))) p))"
proof -
  let ?g = "fst (addPoint p (g, b))"
  have o: "objects ?g = objects g" using assms(1,2) by (simp add: addPoint_group put_key_member)
  have c1: "count_list (objects ?g) p = 1"
    using o count_list_one [OF assms(3,1)] by simp
  have cs: "coords ?g = put_entry p (usrCoords (points b p)) (coords g)"
    using assms(2) by (simp add: addPoint_group)
  have "distinct (map fst (coords ?g))" "p \<in> fst ` set (coords ?g)"
    using assms(4) by (simp_all add: cs distinct_put_entry keys_put_entry)
  then have c2: "snapshot_count ?g p = 1"
    unfolding snapshot_count_def by (rule count_one)
  have c3: "map_of (coords ?g) p = Some (usrCoords (points b p))"
    by (simp add: cs map_of_put_entry)
  have t: "translationPoints ?g = translationPoints g @ [p]"
    by (simp add: addPoint_group)
  have t2: "translationPoints ?g = translationPoints (addActionPoint TranslationRole p g)"
    by (simp add: t addActionPoint_def)
  have t3: "count_list (translationPoints ?g) p = Suc (count_list (translationPoints g) p)"
    by (simp add: t)
  have gr: "distinct (groups (points (snd (addPoint p (g, b))) p))
            \<and> gid g \<in> set (groups (points (snd (addPoint p (g, b))) p))"
    by (simp add: addPoint_board uniqueArray_def)
  from o c1 c2 c3 t t2 t3 gr show ?thesis by blast
qed

theorem addPoint_of_a_member_witness:
  "objects (fst (addPoint ''A'' square)) = [''A'', ''B'', ''C'', ''D'']
   \<and> snapshot_count (fst (addPoint ''A'' square)) ''A'' = 1
   \<and> translationPoints (fst (addPoint ''A'' square)) = [''A'', ''B'', ''C'', ''D'', ''A'']
   \<and> count_list (translationPoints (fst (addPoint ''A'' square))) ''A'' = 2
   \<and> groups (points (snd (addPoint ''A'' square)) ''A'') = [''G'']"
proof -
  have h1: "''A'' \<in> set (objects (fst square))" by (simp add: square_eq)
  have h2: "''A'' \<noteq> ''''" by simp
  have h3: "distinct (objects (fst square))" by (simp add: square_eq)
  have h4: "distinct (map fst (coords (fst square)))" by (simp add: square_eq)
  have g: "groups (points (snd (addPoint ''A'' square)) ''A'') = [''G'']"
    by (simp add: square_eq addPoint_def Let_def uniqueArray_def)
  from addPoint_of_a_member [OF h1 h2 h3 h4, of "snd square"] g show ?thesis
    by (simp add: square_eq)
qed

section \<open>The centroid\<close>

text \<open>
  \<open>_update_centroid_center\<close> reads the snapshot only (it is not given the board): it
  returns the mean of all snapshot entries, and \<open>(0, 0)\<close> when there is none. When the
  keys of the snapshot are the members, this is the mean over the members; for the
  square it is \<open>(1, 1)\<close>.
\<close>

lemma centroid_no_entries: "update_centroid_center (new_group i) = (0, 0)"
  by (simp add: centroid_mean new_group_def)

lemma centroid_square: "update_centroid_center (fst square) = (1, 1)"
  by (simp add: centroid_mean square_eq usr_simps)

lemma sum_list_snapshot:
  "distinct (map fst cs) \<Longrightarrow>
   sum_list (map (\<lambda>e. f (snd e)) cs) = (\<Sum>k \<in> fst ` set cs. f (the (map_of cs k)))"
proof (induction cs)
  case Nil
  then show ?case by simp
next
  case (Cons e cs)
  obtain k v where e: "e = (k, v)" by (cases e)
  from Cons.prems e have k: "k \<notin> fst ` set cs" by auto
  have "(\<Sum>j \<in> fst ` set cs. f (the (map_of (e # cs) j))) = (\<Sum>j \<in> fst ` set cs. f (the (map_of cs j)))"
    by (rule sum.cong) (use k e in auto)
  with Cons k e show ?case by simp
qed

lemma centroid_of_members:
  assumes "distinct (map fst (coords g))" and "set (objects g) = fst ` set (coords g)"
    and "objects g \<noteq> []"
  shows "update_centroid_center g =
     ((\<Sum>m \<in> set (objects g). usr1 (the (map_of (coords g) m))) / real (card (set (objects g))),
      (\<Sum>m \<in> set (objects g). usr2 (the (map_of (coords g) m))) / real (card (set (objects g))))"
proof -
  from assms(2,3) have ne: "coords g \<noteq> []" by auto
  have "length (coords g) = card (fst ` set (coords g))"
    using distinct_card [OF assms(1)] by simp
  with ne assms(2) show ?thesis
    by (simp add: centroid_mean sum_list_snapshot [OF assms(1)])
qed

text \<open>
  C3. The centroid is the mean of the snapshot coordinates of the current members.
  The code departs from this once a member has been removed: with A at \<open>(0, 0)\<close> and
  B at \<open>(2, 0)\<close> added and B removed again, the only member is A, and the function
  returns \<open>(1, 0)\<close>, counting the entry that B left in \<open>this.coords\<close>.
\<close>

theorem centroid_counts_removed_member:
  "objects (fst (run_ops [AddPoint ''A'', AddPoint ''B'', RemovePoint ''B'']
       (new_group ''G'', square_board))) = [''A'']
   \<and> coords (fst (run_ops [AddPoint ''A'', AddPoint ''B'', RemovePoint ''B'']
       (new_group ''G'', square_board))) = [(''A'', 1, 0, 0), (''B'', 1, 2, 0)]
   \<and> update_centroid_center (fst (run_ops [AddPoint ''A'', AddPoint ''B'', RemovePoint ''B'']
       (new_group ''G'', square_board))) = (1, 0)"
proof -
  have c: "fst (run_ops [AddPoint ''A'', AddPoint ''B'', RemovePoint ''B'']
       (new_group ''G'', square_board))
     = (new_group ''G'')\<lparr>objects := [''A''], coords := [(''A'', 1, 0, 0), (''B'', 1, 2, 0)],
          translationPoints := [''A'', ''B'']\<rparr>"
    by (simp add: addPoint_def removePoint_def updateCoordsCache_def new_group_def Let_def js_simps
        square_board_def)
  show ?thesis unfolding c by (simp add: centroid_mean usr_simps)
qed

end
